theory Spec2Isabelle
  imports Main "HOL-Library.Word"
begin

unbundle bit_operations_syntax

section \<open>Machine types\<close>

text \<open>
  The C++ \<open>int\<close> is a 32-bit two's complement value: \<open>+\<close> and \<open>-\<close> wrap, \<open>sint\<close> reads
  the signed value, \<open>push_bit\<close> is \<open><<\<close> and \<open>signed_drop_bit\<close> is \<open>>>\<close> on a signed
  operand. \<open>unsigned char\<close> is an 8-bit word and \<open>uint16_t\<close> a 16-bit word.
\<close>

type_synonym u8 = "8 word"
type_synonym u16 = "16 word"
type_synonym int32 = "32 word"

text \<open>\<open>pcaddress\<close> and \<open>snesaddress\<close> wrap one \<open>int value\<close> each.\<close>

type_synonym pcaddress = int32
type_synonym snesaddress = int32

section \<open>The ROM container (structs.cpp, \<open>struct ROM\<close>)\<close>

datatype MapperType = lorom | sa1rom | fullsa1rom

text \<open>
  The fields of \<open>struct ROM\<close>. \<open>m_data\<close> is the owned byte buffer (\<open>None\<close> is the null
  pointer). The field \<open>size\<close> is called \<open>rom_size\<close> here. The table \<open>sa1banks\<close>
  (\<open>int[8]\<close>) is declared in structs.h, which is not part of the sources at hand, so
  its contents are a parameter of the model: a list, of 8 entries wherever a theorem
  depends on the table. Every index the code computes lies between 0 and 7.
\<close>

record ROM =
  m_data :: "u8 list option"
  name :: string
  rom_size :: int32
  header_size :: int32
  mapper :: MapperType
  sa1banks :: "int32 list"

subsection \<open>\<open>ROM::pc_to_snes\<close>\<close>

text \<open>
  The loop \<open>for (int i = 0; i < 8; i++)\<close> of the SA-1 branch: \<open>i\<close> is the loop counter
  and the last argument the number of iterations left. \<open>None\<close> means the loop ran to
  its end without returning.
\<close>

fun sa1_bank_loop :: "int32 list \<Rightarrow> int32 \<Rightarrow> nat \<Rightarrow> nat \<Rightarrow> snesaddress option" where
  "sa1_bank_loop banks address i 0 = None"
| "sa1_bank_loop banks address i (Suc n) =
     (if banks ! i = (address AND 0x700000)
      then Some (0x008000 OR push_bit 21 (of_nat i) OR push_bit 1 (address AND 0x0F8000)
                 OR (address AND 0x7FFF))
      else sa1_bank_loop banks address (Suc i) n)"

definition pc_to_snes :: "ROM \<Rightarrow> pcaddress \<Rightarrow> snesaddress" where
  "pc_to_snes rom pc_address =
     (let address = pc_address - header_size rom in
      case mapper rom of
        lorom \<Rightarrow> (push_bit 1 address AND 0x7F0000) OR (address AND 0x7FFF) OR 0x8000
      | sa1rom \<Rightarrow>
          (case sa1_bank_loop (sa1banks rom) address 0 8 of
             Some r \<Rightarrow> r
           | None \<Rightarrow> - 1)
      | fullsa1rom \<Rightarrow>
          if address AND 0x400000 = 0x400000 then address OR 0xC00000
          else if address AND 0x600000 = 0x000000
            then (push_bit 1 address AND 0x3F0000) OR 0x8000 OR (address AND 0x7FFF)
          else if address AND 0x600000 = 0x200000
            then 0x800000 OR (push_bit 1 address AND 0x3F0000) OR 0x8000 OR (address AND 0x7FFF)
          else - 1)"

subsection \<open>\<open>ROM::snes_to_pc\<close>\<close>

text \<open>
  Each branch either returns at once (\<open>return -1\<close>) or assigns \<open>address\<close> and falls
  through to the common \<open>return address + header_size\<close>. The inner value is \<open>Inl r\<close>
  for an early return of \<open>r\<close> and \<open>Inr a\<close> for falling through with \<open>address = a\<close>.
  The index into \<open>sa1banks\<close> is a value between 0 and 7.
\<close>

definition snes_to_pc_branch :: "ROM \<Rightarrow> snesaddress \<Rightarrow> pcaddress + int32" where
  "snes_to_pc_branch rom address =
     (case mapper rom of
        lorom \<Rightarrow>
          if address AND 0xFE0000 = 0x7E0000 \<or> address AND 0x408000 = 0x000000
             \<or> address AND 0x708000 = 0x700000
          then Inl (- 1)
          else Inr (signed_drop_bit 1 (address AND 0x7F0000) OR (address AND 0x7FFF))
      | sa1rom \<Rightarrow>
          if address AND 0x408000 = 0x008000
          then Inr ((sa1banks rom ! unat (signed_drop_bit 21 (address AND 0xE00000)))
                    OR signed_drop_bit 1 (address AND 0x1F0000) OR (address AND 0x007FFF))
          else if address AND 0xC00000 = 0xC00000
          then Inr ((sa1banks rom ! unat (signed_drop_bit 20 (address AND 0x100000)
                                          OR signed_drop_bit 19 (address AND 0x200000)))
                    OR (address AND 0x0FFFFF))
          else Inr (- 1)
      | fullsa1rom \<Rightarrow>
          if address AND 0xC00000 = 0xC00000
          then Inr ((address AND 0x3FFFFF) OR 0x400000)
          else if address AND 0xC00000 = 0x000000 \<or> address AND 0xC00000 = 0x800000
          then if address AND 0x008000 = 0x000000
               then Inl (- 1)
               else Inr (signed_drop_bit 2 (address AND 0x800000)
                         OR signed_drop_bit 1 (address AND 0x3F0000) OR (address AND 0x7FFF))
          else Inl (- 1))"

definition snes_to_pc :: "ROM \<Rightarrow> snesaddress \<Rightarrow> pcaddress" where
  "snes_to_pc rom snes_address =
     (case snes_to_pc_branch rom snes_address of
        Inl r \<Rightarrow> r
      | Inr address \<Rightarrow> address + header_size rom)"

subsection \<open>Reads from the buffer\<close>

text \<open>
  The C++ reads \<open>m_data[i]\<close> without any check. A read through the null pointer or
  outside the allocated buffer is undefined behaviour; the model makes it a value of
  its own, so that no theorem silently relies on such a read.
\<close>

datatype fault = NullDeref | OutOfBuffer

definition byte_at :: "ROM \<Rightarrow> int32 \<Rightarrow> fault + u8" where
  "byte_at rom addr =
     (case m_data rom of
        None \<Rightarrow> Inl NullDeref
      | Some buf \<Rightarrow>
          if 0 \<le> sint addr \<and> nat (sint addr) < length buf
          then Inr (buf ! nat (sint addr))
          else Inl OutOfBuffer)"

text \<open>The \<open>n\<close> bytes starting at \<open>m_data + addr\<close>, as \<open>memcmp\<close> reads them.\<close>

definition bytes_at :: "ROM \<Rightarrow> int32 \<Rightarrow> nat \<Rightarrow> fault + u8 list" where
  "bytes_at rom addr n =
     (case m_data rom of
        None \<Rightarrow> Inl NullDeref
      | Some buf \<Rightarrow>
          if 0 \<le> sint addr \<and> nat (sint addr) + n \<le> length buf
          then Inr (take n (drop (nat (sint addr)) buf))
          else Inl OutOfBuffer)"

subsection \<open>\<open>ROM::get_rats_size\<close>\<close>

definition rats_tag :: "u8 list" where
  "rats_tag = map of_char ''STAR''"

text \<open>
  \<open>rats_header_offset\<close> is \<open>4 + sizeof(uint16_t) + sizeof(uint16_t) = 8\<close>. The two
  16-bit fields are computed in \<open>int\<close> (integer promotion of the bytes) and truncated
  by the assignment to \<open>uint16_t\<close>; the comparison \<open>(tag_size ^ 0xFFFF) != chksum\<close> is
  again one of \<open>int\<close> values. The result is \<open>Inr None\<close> for \<open>std::nullopt\<close>.
\<close>

definition get_rats_size :: "ROM \<Rightarrow> pcaddress \<Rightarrow> fault + u16 option" where
  "get_rats_size rom pcaddr =
     (let addr = pcaddr - 8 in
      case bytes_at rom addr (length rats_tag) of
        Inl f \<Rightarrow> Inl f
      | Inr tag \<Rightarrow>
          if tag \<noteq> rats_tag then Inr None
          else
            let addr = addr + 4 in
            case byte_at rom addr of Inl f \<Rightarrow> Inl f | Inr b0 \<Rightarrow>
            case byte_at rom (addr + 1) of Inl f \<Rightarrow> Inl f | Inr b1 \<Rightarrow>
            case byte_at rom (addr + 2) of Inl f \<Rightarrow> Inl f | Inr b2 \<Rightarrow>
            case byte_at rom (addr + 3) of Inl f \<Rightarrow> Inl f | Inr b3 \<Rightarrow>
              let tag_size = (ucast ((ucast b0 :: int32) OR push_bit 8 (ucast b1)) :: u16);
                  chksum = (ucast ((ucast b2 :: int32) OR push_bit 8 (ucast b3)) :: u16)
              in if (ucast tag_size :: int32) XOR 0xFFFF \<noteq> ucast chksum then Inr None
                 else Inr (Some (tag_size + 1)))"

text \<open>
  The reserved-block header as the format describes it: a little-endian 16-bit field
  made of a low and a high byte, and the size of the block whose payload starts at
  offset \<open>p\<close> of the buffer. The stored size is one less than the true block length,
  so the size of a block is the number \<open>size + 1\<close>, between 1 and 0x10000.
\<close>

definition le16 :: "u8 \<Rightarrow> u8 \<Rightarrow> u16" where
  "le16 lo hi = ucast lo OR push_bit 8 (ucast hi)"

definition rats_size_spec :: "u8 list \<Rightarrow> nat \<Rightarrow> nat option" where
  "rats_size_spec buf p =
     (let tag = take 4 (drop (p - 8) buf);
          sz = le16 (buf ! (p - 4)) (buf ! (p - 3));
          chksum = le16 (buf ! (p - 2)) (buf ! (p - 1))
      in if tag \<noteq> map of_char ''STAR'' then None
         else if chksum \<noteq> sz XOR 0xFFFF then None
         else Some (unat sz + 1))"

subsection \<open>\<open>ROM::open\<close>\<close>

text \<open>
  The functions \<open>::open\<close>, \<open>file_size\<close> and \<open>read_all\<close> of file_io.h and the constant
  \<open>MAX_ROM_SIZE\<close> of structs.h are not part of the sources at hand. What they return is
  a parameter of the model: whether the file of a name can be opened in a mode, its
  size in bytes, and the buffer \<open>read_all\<close> hands back for a file name, a text-mode
  flag and a minimum size (\<open>None\<close> is the null pointer). The last field belongs to
  the C library: the bytes a stream opened in text mode (\<open>"w"\<close>) stores for the bytes
  written to it; a stream opened in binary mode (\<open>"wb"\<close>) stores them unchanged.
\<close>

record file_io =
  can_open :: "string \<Rightarrow> string \<Rightarrow> bool"
  file_size :: "string \<Rightarrow> nat"
  read_all :: "string \<Rightarrow> bool \<Rightarrow> nat \<Rightarrow> u8 list option"
  text_stream :: "u8 list \<Rightarrow> u8 list"

text \<open>
  \<open>bool ROM::open()\<close>. The result is the returned flag and the container afterwards.
  \<open>static_cast<int>\<close> keeps the low 32 bits of the file size.
\<close>

definition ROM_open :: "int32 \<Rightarrow> file_io \<Rightarrow> ROM \<Rightarrow> fault + bool \<times> ROM" where
  "ROM_open MAX_ROM_SIZE io rom =
     (if \<not> can_open io (name rom) ''r+b'' then Inr (False, rom\<lparr>m_data := None\<rparr>)
      else
        let sz = (of_nat (file_size io (name rom)) :: int32);
            hs = sz AND 0x7FFF;
            rom = rom\<lparr>rom_size := sz - hs, header_size := hs\<rparr>;
            rom = rom\<lparr>m_data := read_all io (name rom) False (unat (MAX_ROM_SIZE + hs))\<rparr>
        in if m_data rom = None then Inr (False, rom)
           else
             case byte_at rom (hs + 0x7fd5) of Inl f \<Rightarrow> Inl f | Inr b \<Rightarrow>
               if b = 0x23
               then (case byte_at rom (hs + 0x7fd7) of Inl f \<Rightarrow> Inl f | Inr c \<Rightarrow>
                       if c = 0x0D then Inr (True, rom\<lparr>mapper := fullsa1rom\<rparr>)
                       else Inr (True, rom\<lparr>mapper := sa1rom\<rparr>))
               else Inr (True, rom\<lparr>mapper := lorom\<rparr>))"

text \<open>\<open>bool ROM::open(std::string n)\<close> stores the name and calls \<open>open()\<close>.\<close>

definition ROM_open_name :: "int32 \<Rightarrow> file_io \<Rightarrow> ROM \<Rightarrow> string \<Rightarrow> fault + bool \<times> ROM" where
  "ROM_open_name MAX_ROM_SIZE io rom n = ROM_open MAX_ROM_SIZE io (rom\<lparr>name := n\<rparr>)"

section \<open>The patch staging buffer (structs.cpp, \<open>struct patchfile\<close>)\<close>

text \<open>
  A \<open>patchfile\<close> hands pointers into its own string members to the \<open>memoryfile\<close> it
  owns, and the move constructor carries the \<open>memoryfile\<close> over to another object. The
  model therefore keeps the objects in a store, indexed by their address, and a
  \<open>const char*\<close> is the null pointer or the \<open>c_str()\<close> of the \<open>m_data\<close> or the \<open>m_path\<close>
  member of the object at an address. The member \<open>m_data\<close> of a \<open>patchfile\<close> is called
  \<open>m_data_pf\<close> here, apart from the \<open>m_data\<close> of a \<open>ROM\<close>.
\<close>

type_synonym obj = nat

datatype cstr = nullstr | data_of obj | path_of obj

text \<open>
  \<open>memoryfile\<close> comes from the assembler's header; \<open>std::make_unique<memoryfile>()\<close>
  zero-initialises it. The field \<open>length\<close> is called \<open>length_mf\<close> here.
\<close>

record memoryfile =
  path :: cstr
  buffer :: cstr
  length_mf :: nat

definition new_memoryfile :: memoryfile where
  "new_memoryfile = \<lparr>path = nullstr, buffer = nullstr, length_mf = 0\<rparr>"

text \<open>
  \<open>patchfile::openflags\<close> is cast to \<open>std::ios::openmode\<close>; its declaration is in
  structs.h. Two bits of the mode matter here: \<open>std::ios::out\<close>, without which a
  \<open>std::stringstream\<close> refuses every write, and \<open>std::ios::binary\<close>.
\<close>

record openmode =
  ios_out :: bool
  ios_binary :: bool

record stringstream =
  mode :: openmode
  str :: "u8 list"

definition stream_write :: "stringstream \<Rightarrow> u8 list \<Rightarrow> stringstream" where
  "stream_write ss bytes = (if ios_out (mode ss) then ss\<lparr>str := str ss @ bytes\<rparr> else ss)"

datatype origin = pixi | meimei

record patchfile =
  m_fs_path :: string
  m_path :: string
  m_data_stream :: stringstream
  m_data_pf :: "u8 list"
  m_vfile :: "memoryfile option"
  m_from_meimei :: bool
  m_binary :: bool

type_synonym heap = "obj \<rightharpoonup> patchfile"

text \<open>The two static members \<open>s_meimei_keep\<close> and \<open>s_pixi_keep\<close>, both initially false.\<close>

record keep_flags =
  s_meimei_keep :: bool
  s_pixi_keep :: bool

definition initial_keep :: keep_flags where
  "initial_keep = \<lparr>s_meimei_keep = False, s_pixi_keep = False\<rparr>"

definition set_keep :: "bool \<Rightarrow> bool \<Rightarrow> keep_flags \<Rightarrow> keep_flags" where
  "set_keep pixi_flag meimei_flag k = k\<lparr>s_meimei_keep := meimei_flag, s_pixi_keep := pixi_flag\<rparr>"

text \<open>\<open>std::tolower\<close> in the "C" locale.\<close>

definition tolower :: "char \<Rightarrow> char" where
  "tolower c =
     (let n = (of_char c :: nat) in if 65 \<le> n \<and> n \<le> 90 then char_of (n + 32) else c)"

text \<open>The constructor, for the object at address \<open>this\<close>.\<close>

definition patchfile_new :: "obj \<Rightarrow> string \<Rightarrow> openmode \<Rightarrow> origin \<Rightarrow> heap \<Rightarrow> heap" where
  "patchfile_new this pth md org h =
     h(this \<mapsto>
       \<lparr>m_fs_path = pth, m_path = map tolower pth,
        m_data_stream = \<lparr>mode = md, str = []\<rparr>, m_data_pf = [],
        m_vfile = Some new_memoryfile,
        m_from_meimei = (org = meimei), m_binary = ios_binary md\<rparr>)"

text \<open>
  The move constructor builds the object at \<open>this\<close> from the one at \<open>other\<close>. A moved-from
  \<open>std::string\<close>, stream or \<open>unique_ptr\<close> is left empty. \<open>m_vfile->...\<close> dereferences
  the pointer taken over from \<open>other\<close>, which is null when \<open>other\<close> had been moved from
  before.
\<close>

definition patchfile_move :: "obj \<Rightarrow> obj \<Rightarrow> heap \<Rightarrow> fault + heap" where
  "patchfile_move this other h =
     (case h other of
        None \<Rightarrow> Inl NullDeref
      | Some src \<Rightarrow>
          let moved_from = src\<lparr>m_fs_path := [], m_path := [],
                               m_data_stream := (m_data_stream src)\<lparr>str := []\<rparr>,
                               m_data_pf := [], m_vfile := None\<rparr>;
              dst = \<lparr>m_fs_path = m_fs_path src, m_path = m_path src,
                     m_data_stream = m_data_stream src, m_data_pf = m_data_pf src,
                     m_vfile = m_vfile src,
                     m_from_meimei = m_from_meimei src, m_binary = m_binary src\<rparr>
          in case m_vfile dst of
               None \<Rightarrow> Inl NullDeref
             | Some vf \<Rightarrow>
                 Inr (h(other \<mapsto> moved_from,
                        this \<mapsto> dst\<lparr>m_vfile :=
                          Some (vf\<lparr>buffer := data_of this, length_mf := length (m_data_pf dst),
                                    path := path_of this\<rparr>)\<rparr>)))"

text \<open>
  \<open>fprintf\<close> appends the text that \<open>vsnprintf\<close> makes of the format and its arguments
  (the argument \<open>buf\<close>); \<open>fwrite\<close> appends the first \<open>size\<close> bytes of \<open>bindata\<close>.
\<close>

definition patchfile_fprintf :: "obj \<Rightarrow> u8 list \<Rightarrow> heap \<Rightarrow> fault + heap" where
  "patchfile_fprintf this buf h =
     (case h this of
        None \<Rightarrow> Inl NullDeref
      | Some pf \<Rightarrow> Inr (h(this \<mapsto> pf\<lparr>m_data_stream := stream_write (m_data_stream pf) buf\<rparr>)))"

definition patchfile_fwrite :: "obj \<Rightarrow> u8 list \<Rightarrow> nat \<Rightarrow> heap \<Rightarrow> fault + heap" where
  "patchfile_fwrite this bindata sz h =
     (case h this of
        None \<Rightarrow> Inl NullDeref
      | Some pf \<Rightarrow>
          if length bindata < sz then Inl OutOfBuffer
          else Inr (h(this \<mapsto>
                 pf\<lparr>m_data_stream := stream_write (m_data_stream pf) (take sz bindata)\<rparr>)))"

definition patchfile_close :: "obj \<Rightarrow> heap \<Rightarrow> fault + heap" where
  "patchfile_close this h =
     (case h this of
        None \<Rightarrow> Inl NullDeref
      | Some pf0 \<Rightarrow>
          let pf = pf0\<lparr>m_data_pf := str (m_data_stream pf0)\<rparr> in
          case m_vfile pf of
            None \<Rightarrow> Inl NullDeref
          | Some vf \<Rightarrow>
              Inr (h(this \<mapsto> pf\<lparr>m_vfile :=
                     Some (vf\<lparr>buffer := data_of this, length_mf := length (m_data_pf pf),
                               path := path_of this\<rparr>)\<rparr>)))"

text \<open>
  What \<open>::fwrite(p, sizeof(char), n, fp)\<close> reads: the first \<open>n\<close> bytes behind a pointer.
  Nothing is read when \<open>n\<close> is 0.
\<close>

definition read_cstr :: "heap \<Rightarrow> cstr \<Rightarrow> nat \<Rightarrow> fault + u8 list" where
  "read_cstr h p n =
     (if n = 0 then Inr []
      else case p of
        nullstr \<Rightarrow> Inl NullDeref
      | data_of a \<Rightarrow>
          (case h a of
             None \<Rightarrow> Inl NullDeref
           | Some pf \<Rightarrow> if n \<le> length (m_data_pf pf) then Inr (take n (m_data_pf pf)) else Inl OutOfBuffer)
      | path_of a \<Rightarrow>
          (case h a of
             None \<Rightarrow> Inl NullDeref
           | Some pf \<Rightarrow>
               if n \<le> length (m_path pf) then Inr (take n (map of_char (m_path pf)))
               else Inl OutOfBuffer))"

text \<open>
  The destructor, on the store of objects and the file system (a map from paths to
  file contents). The object at \<open>this\<close> is gone afterwards. \<open>open\<close> with mode \<open>"w"\<close> or
  \<open>"wb"\<close> creates or truncates the file.
\<close>

type_synonym filesystem = "string \<rightharpoonup> u8 list"

definition patchfile_destroy ::
  "file_io \<Rightarrow> keep_flags \<Rightarrow> obj \<Rightarrow> heap \<times> filesystem \<Rightarrow> fault + heap \<times> filesystem" where
  "patchfile_destroy io keep this st =
     (case st of (h, files) \<Rightarrow>
      case h this of
        None \<Rightarrow> Inl NullDeref
      | Some pf \<Rightarrow>
          if m_path pf = [] then Inr (h(this := None), files)
          else if (if m_from_meimei pf then s_meimei_keep keep else s_pixi_keep keep)
          then
            if \<not> can_open io (m_fs_path pf) (if m_binary pf then ''wb'' else ''w'')
            then Inr (h(this := None), files)
            else
              case m_vfile pf of
                None \<Rightarrow> Inl NullDeref
              | Some vf \<Rightarrow>
                  (case read_cstr h (buffer vf) (length_mf vf) of
                     Inl f \<Rightarrow> Inl f
                   | Inr bytes \<Rightarrow>
                       Inr (h(this := None),
                            files(m_fs_path pf \<mapsto>
                              (if m_binary pf then bytes else text_stream io bytes))))
          else
            if files (m_fs_path pf) \<noteq> None
            then Inr (h(this := None), files(m_fs_path pf := None))
            else Inr (h(this := None), files))"

text \<open>
  A run of appends on the object at \<open>this\<close>: \<open>Formatted buf\<close> is a call of \<open>fprintf\<close> whose
  formatted text is \<open>buf\<close>, \<open>Raw bindata sz\<close> a call of \<open>fwrite(bindata, sz)\<close>. A fault ends the
  run.
\<close>

datatype append_op = Formatted "u8 list" | Raw "u8 list" nat

fun appended_bytes :: "append_op \<Rightarrow> u8 list" where
  "appended_bytes (Formatted buf) = buf"
| "appended_bytes (Raw bindata sz) = take sz bindata"

fun appends :: "obj \<Rightarrow> append_op list \<Rightarrow> heap \<Rightarrow> fault + heap" where
  "appends this [] h = Inr h"
| "appends this (Formatted buf # ops) h =
     (case patchfile_fprintf this buf h of Inl f \<Rightarrow> Inl f | Inr h' \<Rightarrow> appends this ops h')"
| "appends this (Raw bindata sz # ops) h =
     (case patchfile_fwrite this bindata sz h of Inl f \<Rightarrow> Inl f | Inr h' \<Rightarrow> appends this ops h')"

text \<open>
  The bytes that a stream of mode \<open>md\<close> holds after these appends, and the keep flag
  that governs an object of an origin (\<open>m_from_meimei ? s_meimei_keep : s_pixi_keep\<close>).
\<close>

definition written :: "openmode \<Rightarrow> append_op list \<Rightarrow> u8 list" where
  "written md ops = (if ios_out md then concat (map appended_bytes ops) else [])"

definition keep_of :: "keep_flags \<Rightarrow> origin \<Rightarrow> bool" where
  "keep_of k org = (if org = meimei then s_meimei_keep k else s_pixi_keep k)"

text \<open>
  The snapshot of the object at address \<open>a\<close> points into this very object: its buffer is
  the object's own \<open>m_data\<close>, its length the size of that string, its path the object's
  own \<open>m_path\<close>.
\<close>

definition snapshot_consistent :: "heap \<Rightarrow> obj \<Rightarrow> bool" where
  "snapshot_consistent h a \<longleftrightarrow>
     (case h a of
        None \<Rightarrow> False
      | Some pf \<Rightarrow>
          (case m_vfile pf of
             None \<Rightarrow> False
           | Some vf \<Rightarrow>
               buffer vf = data_of a \<and> length_mf vf = length (m_data_pf pf)
               \<and> path vf = path_of a))"

section \<open>Sprite descriptors (structs.cpp, \<open>struct sprite\<close>)\<close>

text \<open>
  Modelled from the spec: the type \<open>pointer\<close> with its constructor from a raw integer
  and its predicate \<open>is_empty\<close> is declared in structs.h, which is not part of the
  sources at hand. The spec describes it as a 24-bit value laid out as bank (bits
  16-23), high byte (bits 8-15) and low byte (bits 0-7), constructible from a raw
  24-bit integer, and calls a pointer empty when it equals the fixed default sentinel
  pointer. The macros \<open>RTL_BANK\<close>, \<open>RTL_HIGH\<close> and \<open>RTL_LOW\<close> that make up the sentinel
  are parameters.
\<close>

record pointer =
  lowbyte :: u8
  highbyte :: u8
  bankbyte :: u8

text \<open>
  Modelled from the spec: the constructor \<open>pointer{int}\<close> of structs.h, which takes the
  low byte from bits 0-7, the high byte from bits 8-15 and the bank from bits 16-23.
\<close>

definition pointer_of_int :: "int32 \<Rightarrow> pointer" where
  "pointer_of_int x =
     \<lparr>lowbyte = ucast x, highbyte = ucast (drop_bit 8 x), bankbyte = ucast (drop_bit 16 x)\<rparr>"

record rtl_macros =
  RTL_BANK :: int32
  RTL_HIGH :: int32
  RTL_LOW :: int32

text \<open>\<open>constexpr pointer DEFAULT_PTR = pointer{(RTL_BANK << 16) | (RTL_HIGH << 8) | (RTL_LOW)}\<close>\<close>

definition DEFAULT_PTR :: "rtl_macros \<Rightarrow> pointer" where
  "DEFAULT_PTR rtl =
     pointer_of_int (push_bit 16 (RTL_BANK rtl) OR push_bit 8 (RTL_HIGH rtl) OR RTL_LOW rtl)"

text \<open>
  Modelled from the spec: \<open>pointer::is_empty\<close> of structs.h; a pointer is empty when it
  equals the fixed default sentinel pointer.
\<close>

definition is_empty :: "rtl_macros \<Rightarrow> pointer \<Rightarrow> bool" where
  "is_empty rtl p \<longleftrightarrow> p = DEFAULT_PTR rtl"

text \<open>
  The aggregates below have the members that \<open>sprite::clear\<close> and \<open>sprite::print\<close>
  use. Of the enumerations \<open>display_type\<close> and \<open>ListType\<close> only the enumerators
  \<open>XYPosition\<close> and \<open>Sprite\<close> occur in structs.cpp; every other enumerator is
  represented by its number. The members \<open>prop\<close> of a tile and \<open>text\<close> of a display
  tile are called \<open>tile_prop\<close> and \<open>tile_text\<close>, and the members of a collection carry
  the prefix \<open>coll\<close>.
\<close>

record tile =
  tile :: u8
  tile_prop :: u8

record map16 =
  top_left :: tile
  bottom_left :: tile
  top_right :: tile
  bottom_right :: tile

record display_tile =
  x_offset :: int32
  y_offset :: int32
  tile_number :: int32
  tile_text :: string

record display =
  x_or_index :: int32
  y_or_value :: int32
  extra_bit :: bool
  description :: string
  tiles :: "display_tile list"

record collection =
  coll_extra_bit :: bool
  coll_prop :: "u8 list"
  coll_name :: string

datatype display_type = XYPosition | other_display_type nat

datatype ListType = Sprite | other_list_type nat

record sprite_table =
  type :: u8
  actlike :: u8
  tweak :: "u8 list"
  init :: pointer
  main :: pointer
  extra :: "u8 list"

record status_pointers =
  carriable :: pointer
  kicked :: pointer
  carried :: pointer
  mouth :: pointer
  goal :: pointer

record sprite =
  line :: int32
  number :: int32
  level :: int32
  table :: sprite_table
  ptrs :: status_pointers
  extended_cape_ptr :: pointer
  byte_count :: int32
  extra_byte_count :: int32
  directory :: string
  asm_file :: string
  cfg_file :: string
  map_data :: "map16 list"
  disp_type :: display_type
  displays :: "display list"
  collections :: "collection list"
  sprite_type :: ListType

text \<open>\<open>bool sprite::has_empty_table() const\<close>\<close>

definition has_empty_table :: "rtl_macros \<Rightarrow> sprite \<Rightarrow> bool" where
  "has_empty_table rtl s \<longleftrightarrow> is_empty rtl (init (table s)) \<and> is_empty rtl (main (table s))"

text \<open>
  \<open>bool is_empty_table(std::span<sprite> sprites)\<close>: the loop returns false at the first
  sprite for which \<open>has_empty_table()\<close> holds, and true after the last sprite.
\<close>

fun is_empty_table :: "rtl_macros \<Rightarrow> sprite list \<Rightarrow> bool" where
  "is_empty_table rtl [] = True"
| "is_empty_table rtl (s # sprites) =
     (if has_empty_table rtl s then False else is_empty_table rtl sprites)"

text \<open>
  \<open>void sprite::clear()\<close>. \<open>memset\<close> zeroes the 6 bytes of \<open>tweak\<close> and the 2 bytes of
  \<open>extra\<close>.
\<close>

definition clear :: "rtl_macros \<Rightarrow> sprite \<Rightarrow> sprite" where
  "clear rtl s =
     s\<lparr>line := 0, number := 0, level := 0x200,
       table := (table s)\<lparr>type := 0, actlike := 0,
                           tweak := replicate (length (tweak (table s))) 0,
                           init := DEFAULT_PTR rtl, main := DEFAULT_PTR rtl,
                           extra := replicate (length (extra (table s))) 0\<rparr>,
       ptrs := (ptrs s)\<lparr>carriable := DEFAULT_PTR rtl, carried := DEFAULT_PTR rtl,
                         goal := DEFAULT_PTR rtl, kicked := DEFAULT_PTR rtl,
                         mouth := DEFAULT_PTR rtl\<rparr>,
       extended_cape_ptr := DEFAULT_PTR rtl,
       byte_count := 0, extra_byte_count := 0,
       directory := [], asm_file := [], cfg_file := [],
       map_data := [],
       disp_type := XYPosition, displays := [],
       collections := [],
       sprite_type := Sprite\<rparr>"

section \<open>Auxiliary definitions\<close>

text \<open>
  The LoROM formula and the SA-1 formula of \<open>pc_to_snes\<close>, named so that the proofs
  can speak about them: \<open>a\<close> is the offset without the header and \<open>w\<close> the index of the
  matching bank.
\<close>

definition lorom_snes :: "int32 \<Rightarrow> int32" where
  "lorom_snes a = (push_bit 1 a AND 0x7F0000) OR (a AND 0x7FFF) OR 0x8000"

definition sa1_snes :: "int32 \<Rightarrow> int32 \<Rightarrow> int32" where
  "sa1_snes w a = 0x008000 OR push_bit 21 w OR push_bit 1 (a AND 0x0F8000) OR (a AND 0x7FFF)"

section \<open>Concrete inputs\<close>

text \<open>
  A ROM container with a mapper, a header size and a payload size. Its bank table maps
  the slots 0, 1, 4 and 5 to the first four megabytes of the image and leaves the
  slots 2, 3, 6 and 7 unmapped (-1).
\<close>

definition rom_image :: "MapperType \<Rightarrow> int32 \<Rightarrow> int32 \<Rightarrow> ROM" where
  "rom_image mp hs sz =
     \<lparr>m_data = None, name = ''rom.smc'', rom_size = sz, header_size = hs, mapper = mp,
      sa1banks = [0x000000, 0x100000, - 1, - 1, 0x200000, 0x300000, - 1, - 1]\<rparr>"

text \<open>An SA-1 ROM of 1 MiB with a 512-byte copier header.\<close>

definition sa1_rom_with_header :: ROM where
  "sa1_rom_with_header = rom_image sa1rom 0x200 0x100000"

text \<open>A LoROM of 4 MiB without a header.\<close>

definition lorom_4mb :: ROM where
  "lorom_4mb = rom_image lorom 0 0x400000"

text \<open>SA-1 ROMs of 8 MiB and of 12 MiB, each with a 512-byte copier header.\<close>

definition sa1_8mb :: ROM where
  "sa1_8mb = rom_image sa1rom 0x200 0x800000"

definition sa1_12mb :: ROM where
  "sa1_12mb = rom_image sa1rom 0x200 0xC00000"

text \<open>
  A buffer that holds one reserved-block header (\<open>"STAR"\<close>, size \<open>04 00\<close>, checksum
  \<open>FB FF\<close>) and ends where the payload would start, and a container owning it.
\<close>

definition star_block :: "u8 list" where
  "star_block = map of_char ''STAR'' @ [0x04, 0x00, 0xFB, 0xFF]"

definition star_rom :: ROM where
  "star_rom = (rom_image lorom 0 0)\<lparr>m_data := Some star_block\<rparr>"

text \<open>The header of a block of 0x10000 bytes: size \<open>FF FF\<close>, checksum \<open>00 00\<close>.\<close>

definition largest_block :: "u8 list" where
  "largest_block = map of_char ''STAR'' @ [0xFF, 0xFF, 0x00, 0x00]"

definition largest_block_rom :: ROM where
  "largest_block_rom = (rom_image lorom 0 0)\<lparr>m_data := Some largest_block\<rparr>"

text \<open>
  Three ROM files: an image of 0x100200 bytes (512 bytes of header and 1 MiB) with the
  bytes 0x23 and 0x0D at the offsets 0x7FD5 and 0x7FD7 behind the header, an image of
  0x100000 bytes with the bytes 0x23 and 0x35 at these offsets, and an image of
  0x100000 zero bytes. \<open>read_all\<close> pads the file with zero bytes up to the minimum
  size, and \<open>MAX_ROM_SIZE\<close> is 16 MiB.
\<close>

definition MAX_ROM_16mb :: int32 where
  "MAX_ROM_16mb = 0x1000000"

definition full_sa1_file :: "u8 list" where
  "full_sa1_file = replicate 0x81D5 0 @ [0x23, 0x00, 0x0D] @ replicate 0xF8028 0"

definition sa1_file :: "u8 list" where
  "sa1_file = replicate 0x7FD5 0 @ [0x23, 0x00, 0x35] @ replicate 0xF8028 0"

definition plain_file :: "u8 list" where
  "plain_file = replicate 0x100000 0"

definition rom_files :: file_io where
  "rom_files =
     \<lparr>can_open = (\<lambda>n md. n = ''full_sa1.smc'' \<or> n = ''sa1.sfc'' \<or> n = ''plain.sfc''),
      file_size = (\<lambda>n. if n = ''full_sa1.smc'' then 0x100200 else 0x100000),
      read_all = (\<lambda>n txt minimum.
         if n = ''full_sa1.smc'' then Some (full_sa1_file @ replicate (minimum - 0x100200) 0)
         else if n = ''sa1.sfc'' then Some (sa1_file @ replicate (minimum - 0x100000) 0)
         else if n = ''plain.sfc'' then Some (plain_file @ replicate (minimum - 0x100000) 0)
         else None),
      text_stream = (\<lambda>bytes. bytes)\<rparr>"

definition unopened_rom :: "string \<Rightarrow> ROM" where
  "unopened_rom n = (rom_image lorom 0 0)\<lparr>name := n\<rparr>"

text \<open>
  A patch of 7 bytes staged for the path \<open>Patch.ASM\<close> by the object at address 3: the
  store after the appends, after \<open>close\<close>, and after moving the closed object to address
  4. Two C libraries: one that opens every path for writing and whose text mode writes a
  line feed as carriage return and line feed, and one that opens no path.
\<close>

definition binary_mode :: openmode where
  "binary_mode = \<lparr>ios_out = True, ios_binary = True\<rparr>"

definition text_mode :: openmode where
  "text_mode = \<lparr>ios_out = True, ios_binary = False\<rparr>"

definition patch_text :: "u8 list" where
  "patch_text = map of_char ''db $42'' @ [0x0A]"

definition crlf :: "u8 list \<Rightarrow> u8 list" where
  "crlf bytes = concat (map (\<lambda>b. if b = 0x0A then [0x0D, 0x0A] else [b]) bytes)"

definition writable_io :: file_io where
  "writable_io =
     \<lparr>can_open = (\<lambda>n md. True), file_size = (\<lambda>n. 0), read_all = (\<lambda>n txt minimum. None),
      text_stream = crlf\<rparr>"

definition unwritable_io :: file_io where
  "unwritable_io = writable_io\<lparr>can_open := (\<lambda>n md. False)\<rparr>"

definition keep_pixi :: keep_flags where
  "keep_pixi = set_keep True False initial_keep"

definition no_objects :: heap where
  "no_objects = Map.empty"

definition no_files :: filesystem where
  "no_files = Map.empty"

definition moved_heap :: heap where
  "moved_heap =
     no_objects(3 \<mapsto>
       \<lparr>m_fs_path = [], m_path = [],
        m_data_stream = \<lparr>mode = binary_mode, str = []\<rparr>, m_data_pf = [],
        m_vfile = None, m_from_meimei = False, m_binary = True\<rparr>,
      4 \<mapsto>
       \<lparr>m_fs_path = ''Patch.ASM'', m_path = ''patch.asm'',
        m_data_stream = \<lparr>mode = binary_mode, str = patch_text\<rparr>, m_data_pf = patch_text,
        m_vfile = Some \<lparr>path = path_of 4, buffer = data_of 4,
                         length_mf = length patch_text\<rparr>,
        m_from_meimei = False, m_binary = True\<rparr>)"

definition staged_heap :: "openmode \<Rightarrow> heap" where
  "staged_heap md =
     no_objects(3 \<mapsto>
       \<lparr>m_fs_path = ''Patch.ASM'', m_path = ''patch.asm'',
        m_data_stream = \<lparr>mode = md, str = patch_text\<rparr>, m_data_pf = [],
        m_vfile = Some new_memoryfile,
        m_from_meimei = False, m_binary = ios_binary md\<rparr>)"

definition closed_heap :: "openmode \<Rightarrow> heap" where
  "closed_heap md =
     no_objects(3 \<mapsto>
       \<lparr>m_fs_path = ''Patch.ASM'', m_path = ''patch.asm'',
        m_data_stream = \<lparr>mode = md, str = patch_text\<rparr>, m_data_pf = patch_text,
        m_vfile = Some \<lparr>path = path_of 3, buffer = data_of 3, length_mf = length patch_text\<rparr>,
        m_from_meimei = False, m_binary = ios_binary md\<rparr>)"

text \<open>
  The sentinel pointer 0x018021 and a sprite whose fields all differ from what
  \<open>sprite::clear\<close> stores.
\<close>

definition rtl_8021 :: rtl_macros where
  "rtl_8021 = \<lparr>RTL_BANK = 0x01, RTL_HIGH = 0x80, RTL_LOW = 0x21\<rparr>"

definition some_sprite :: sprite where
  "some_sprite =
     \<lparr>line = 7, number = 0x1B, level = 0x105,
      table = \<lparr>type = 1, actlike = 0x36, tweak = [1, 2, 3, 4, 5, 6],
               init = pointer_of_int 0x128000, main = pointer_of_int 0x128123,
               extra = [1, 2]\<rparr>,
      ptrs = \<lparr>carriable = pointer_of_int 0x138000, kicked = pointer_of_int 0x138010,
              carried = pointer_of_int 0x138020, mouth = pointer_of_int 0x138030,
              goal = pointer_of_int 0x138040\<rparr>,
      extended_cape_ptr = pointer_of_int 0x138050,
      byte_count = 2, extra_byte_count = 3,
      directory = ''sprites/'', asm_file = ''thwomp.asm'', cfg_file = ''thwomp.json'',
      map_data = [], disp_type = other_display_type 1, displays = [], collections = [],
      sprite_type = other_list_type 1\<rparr>"

section \<open>Rejected SNES addresses\<close>

text \<open>
  What \<open>snes_to_pc\<close> returns for an address in a rejection range, mapper by mapper: the
  LoROM and the FullSA1ROM branch return -1, the SA1ROM branch returns
  \<open>header_size - 1\<close>.
\<close>

lemma snes_to_pc_lorom_rejected:
  assumes "mapper rom = lorom"
    and "a AND 0xFE0000 = 0x7E0000 \<or> a AND 0x408000 = 0x000000 \<or> a AND 0x708000 = 0x700000"
  shows "snes_to_pc rom a = - 1"
  using assms by (auto simp: snes_to_pc_def snes_to_pc_branch_def)

lemma snes_to_pc_fullsa1rom_rejected:
  assumes "mapper rom = fullsa1rom"
    and "a AND 0xC00000 \<noteq> 0xC00000"
    and "a AND 0xC00000 = 0x000000 \<or> a AND 0xC00000 = 0x800000 \<Longrightarrow> a AND 0x008000 = 0x000000"
  shows "snes_to_pc rom a = - 1"
  using assms by (auto simp: snes_to_pc_def snes_to_pc_branch_def)

lemma snes_to_pc_sa1rom_rejected:
  assumes "mapper rom = sa1rom"
    and "a AND 0x408000 \<noteq> 0x008000"
    and "a AND 0xC00000 \<noteq> 0xC00000"
  shows "snes_to_pc rom a = header_size rom - 1"
  using assms by (simp add: snes_to_pc_def snes_to_pc_branch_def)

text \<open>
  C1. The claim: for every mapper, an SNES address in a rejection range of the mapper is
  translated to the sentinel -1, whatever the header size. The LoROM and FullSA1ROM
  branches return -1 at once, but the SA1ROM branch assigns \<open>address = -1\<close> and falls
  through to \<open>return address + header_size\<close>: on an SA-1 ROM with a 512-byte header the
  unmapped address 0x000000 (neither \<open>address & 0x408000 == 0x008000\<close> nor
  \<open>address & 0xC00000 == 0xC00000\<close>) is translated to 511, not to -1.
\<close>

theorem snes_to_pc_sa1rom_rejection_adds_header:
  "snes_to_pc sa1_rom_with_header 0x000000 = 511"
  by (simp add: snes_to_pc_def snes_to_pc_branch_def sa1_rom_with_header_def rom_image_def)

section \<open>Bits of the address masks\<close>

lemma bit_field_const:
  "c = push_bit k (mask m) \<Longrightarrow> bit (c :: int) n \<longleftrightarrow> k \<le> n \<and> n < k + m"
  by (auto simp: bit_push_bit_iff bit_mask_iff)

lemma b7FFF: "bit (0x7FFF :: int) n \<longleftrightarrow> n < 15"
  using bit_field_const [of "0x7FFF" 0 15 n] by (simp add: mask_eq_exp_minus_1)
lemma b8000: "bit (0x8000 :: int) n \<longleftrightarrow> n = 15"
  using bit_field_const [of "0x8000" 15 1 n] by (simp add: mask_eq_exp_minus_1) linarith
lemma b7F0000: "bit (0x7F0000 :: int) n \<longleftrightarrow> 16 \<le> n \<and> n < 23"
  using bit_field_const [of "0x7F0000" 16 7 n] by (simp add: mask_eq_exp_minus_1)
lemma bFE0000: "bit (0xFE0000 :: int) n \<longleftrightarrow> 17 \<le> n \<and> n < 24"
  using bit_field_const [of "0xFE0000" 17 7 n] by (simp add: mask_eq_exp_minus_1)
lemma b7E0000: "bit (0x7E0000 :: int) n \<longleftrightarrow> 17 \<le> n \<and> n < 23"
  using bit_field_const [of "0x7E0000" 17 6 n] by (simp add: mask_eq_exp_minus_1)
lemma b3F0000: "bit (0x3F0000 :: int) n \<longleftrightarrow> 16 \<le> n \<and> n < 22"
  using bit_field_const [of "0x3F0000" 16 6 n] by (simp add: mask_eq_exp_minus_1)
lemma b400000: "bit (0x400000 :: int) n \<longleftrightarrow> n = 22"
  using bit_field_const [of "0x400000" 22 1 n] by (simp add: mask_eq_exp_minus_1) linarith
lemma b700000: "bit (0x700000 :: int) n \<longleftrightarrow> 20 \<le> n \<and> n < 23"
  using bit_field_const [of "0x700000" 20 3 n] by (simp add: mask_eq_exp_minus_1)

lemma b408000: "bit (0x408000 :: int) n \<longleftrightarrow> n = 15 \<or> n = 22"
proof -
  have "(0x408000 :: int) = 0x400000 OR 0x8000" by simp
  then show ?thesis by (simp only: bit_or_iff b400000 b8000) auto
qed
lemma b708000: "bit (0x708000 :: int) n \<longleftrightarrow> n = 15 \<or> (20 \<le> n \<and> n < 23)"
proof -
  have "(0x708000 :: int) = 0x700000 OR 0x8000" by simp
  then show ?thesis by (simp only: bit_or_iff b700000 b8000) auto
qed

lemma b0F8000: "bit (0x0F8000 :: int) n \<longleftrightarrow> 15 \<le> n \<and> n < 20"
  using bit_field_const [of "0x0F8000" 15 5 n] by (simp add: mask_eq_exp_minus_1)
lemma bE00000: "bit (0xE00000 :: int) n \<longleftrightarrow> 21 \<le> n \<and> n < 24"
  using bit_field_const [of "0xE00000" 21 3 n] by (simp add: mask_eq_exp_minus_1)
lemma b1F0000: "bit (0x1F0000 :: int) n \<longleftrightarrow> 16 \<le> n \<and> n < 21"
  using bit_field_const [of "0x1F0000" 16 5 n] by (simp add: mask_eq_exp_minus_1)

lemmas const_bits = b0F8000 bE00000 b1F0000 b7FFF b8000 b7F0000 bFE0000 b7E0000 b3F0000 b400000 b700000 b408000 b708000

lemma upper_bits_clear: "(a :: int32) < 2 ^ k \<Longrightarrow> bit a n \<Longrightarrow> n < k"
proof -
  assume lt: "a < 2 ^ k" and b: "bit a n"
  from lt have "a AND mask k = a" by (rule less_mask_eq)
  with b have "bit (a AND mask k) n" by simp
  then show "n < k" by (simp only: bit_and_iff bit_mask_iff)
qed

lemma bit_shl1: "bit (a * 2 :: int32) n \<longleftrightarrow> 1 \<le> n \<and> n < 32 \<and> bit a (n - 1)"
proof -
  have "a * 2 = push_bit 1 a" by simp
  then show ?thesis by (simp only: bit_push_bit_iff possible_bit_word) auto
qed

lemma bit_lorom_snes:
  "bit (lorom_snes a) n \<longleftrightarrow> (16 \<le> n \<and> n < 23 \<and> bit a (n - 1)) \<or> (n < 15 \<and> bit a n) \<or> n = 15"
  by (auto simp: lorom_snes_def bit_or_iff bit_and_iff bit_shl1 const_bits)

lemma lorom_not_rejected2: "lorom_snes a AND 0x408000 \<noteq> 0"
proof
  assume "lorom_snes a AND 0x408000 = 0"
  then have "bit (lorom_snes a AND 0x408000) 15 = bit (0 :: int32) 15" by simp
  then show False by (simp add: bit_and_iff bit_lorom_snes const_bits)
qed

lemma lorom_not_rejected3: "lorom_snes a AND 0x708000 \<noteq> 0x700000"
proof
  assume "lorom_snes a AND 0x708000 = 0x700000"
  then have "bit (lorom_snes a AND 0x708000) 15 = bit (0x700000 :: int32) 15" by simp
  then show False by (simp add: bit_and_iff bit_lorom_snes const_bits)
qed

lemma lorom_not_rejected1:
  assumes "a < 0x3F0000"
  shows "lorom_snes a AND 0xFE0000 \<noteq> 0x7E0000"
proof
  assume eq: "lorom_snes a AND 0xFE0000 = 0x7E0000"
  have "a AND 0x3F0000 = 0x3F0000"
  proof (rule bit_word_eqI)
    fix n assume "n < LENGTH(32)"
    have "bit (lorom_snes a AND 0xFE0000) (Suc n) = bit (0x7E0000 :: int32) (Suc n)"
      using eq by simp
    then show "bit (a AND 0x3F0000) n = bit (0x3F0000 :: int32) n"
      by (auto simp: bit_and_iff bit_lorom_snes const_bits)
  qed
  moreover have "a AND 0x3F0000 \<le> a" by (rule word_and_le2)
  ultimately show False using assms by simp
qed

lemma lorom_back:
  assumes "a < 0x3F0000"
  shows "signed_drop_bit 1 (lorom_snes a AND 0x7F0000) OR (lorom_snes a AND 0x7FFF) = a"
proof (rule bit_word_eqI)
  fix n assume n: "n < LENGTH(32)"
  have "a < 2 ^ 22" using assms by (rule order_less_trans) simp
  then have up: "bit a n \<Longrightarrow> n < 22" by (rule upper_bits_clear)
  show "bit (signed_drop_bit 1 (lorom_snes a AND 0x7F0000) OR (lorom_snes a AND 0x7FFF)) n = bit a n"
    using n up
    by (auto simp: bit_or_iff bit_and_iff bit_signed_drop_bit_iff bit_lorom_snes const_bits)
qed

lemma bit_sa1_snes:
  assumes "w < 2 ^ 3"
  shows "bit (sa1_snes w a) n \<longleftrightarrow>
    n = 15 \<or> (21 \<le> n \<and> n < 24 \<and> bit w (n - 21)) \<or> (16 \<le> n \<and> n < 21 \<and> bit a (n - 1))
    \<or> (n < 15 \<and> bit a n)"
  using upper_bits_clear [OF assms, of "n - 21"]
  by (auto simp: sa1_snes_def bit_or_iff bit_and_iff bit_push_bit_iff bit_shl1 const_bits possible_bit_word)

lemma sa1_first_branch:
  assumes "w < 2 ^ 3" "\<not> bit w 1"
  shows "sa1_snes w a AND 0x408000 = 0x008000"
proof (rule bit_word_eqI)
  fix n assume "n < LENGTH(32)"
  then show "bit (sa1_snes w a AND 0x408000) n = bit (0x008000 :: int32) n"
    using assms(2) by (auto simp: bit_and_iff bit_sa1_snes [OF assms(1)] const_bits)
qed

lemma sa1_index:
  assumes "w < 2 ^ 3"
  shows "signed_drop_bit 21 (sa1_snes w a AND 0xE00000) = w"
proof (rule bit_word_eqI)
  fix n assume "n < LENGTH(32)"
  then show "bit (signed_drop_bit 21 (sa1_snes w a AND 0xE00000)) n = bit w n"
    using upper_bits_clear [OF assms, of n]
    by (auto simp: bit_signed_drop_bit_iff bit_and_iff bit_sa1_snes [OF assms(1)] const_bits)
qed

lemma sa1_back:
  assumes "w < 2 ^ 3" "a < 2 ^ 23"
  shows "(a AND 0x700000) OR signed_drop_bit 1 (sa1_snes w a AND 0x1F0000)
         OR (sa1_snes w a AND 0x007FFF) = a"
proof (rule bit_word_eqI)
  fix n assume "n < LENGTH(32)"
  then show "bit ((a AND 0x700000) OR signed_drop_bit 1 (sa1_snes w a AND 0x1F0000)
         OR (sa1_snes w a AND 0x007FFF)) n = bit a n"
    using upper_bits_clear [OF assms(2), of n]
    by (auto simp: bit_or_iff bit_signed_drop_bit_iff bit_and_iff bit_sa1_snes [OF assms(1)] const_bits)
qed

section \<open>Round trips through the address translation\<close>

text \<open>
  For an offset \<open>p\<close> that is not below the header, \<open>address -= header_size\<close> computes
  the distance of the two signed values.
\<close>

lemma uint_payload_offset:
  fixes p h :: int32
  assumes "sint h \<le> sint p" "sint p - sint h < 2 ^ 31"
  shows "uint (p - h) = sint p - sint h"
proof -
  have "sint (p - h) = signed_take_bit 31 (sint p - sint h)"
    by (simp add: sint_word_diff)
  also have "\<dots> = sint p - sint h"
    using assms by (intro signed_take_bit_int_eq_self) simp_all
  finally have s: "sint (p - h) = sint p - sint h" .
  have "uint (p - h) = take_bit 32 (sint (p - h))" by (simp add: uint_sint)
  also have "\<dots> = sint p - sint h"
    unfolding s using assms by (intro take_bit_int_eq_self) simp_all
  finally show ?thesis .
qed

lemma pc_to_snes_lorom:
  "mapper rom = lorom \<Longrightarrow> pc_to_snes rom p = lorom_snes (p - header_size rom)"
  by (simp add: pc_to_snes_def lorom_snes_def Let_def)

lemma snes_to_pc_lorom_snes:
  assumes "mapper rom = lorom" "a < 0x3F0000"
  shows "snes_to_pc rom (lorom_snes a) = a + header_size rom"
  using assms lorom_not_rejected1 [OF assms(2)] lorom_not_rejected2 [of a]
    lorom_not_rejected3 [of a] lorom_back [OF assms(2)]
  by (simp add: snes_to_pc_def snes_to_pc_branch_def)

text \<open>
  C2 (as amended). On a LoROM, every PC offset \<open>p\<close> with
  \<open>header_size \<le> p < header_size + min(size, 0x3F0000)\<close> is reproduced by
  \<open>snes_to_pc(pc_to_snes(p))\<close>: the round trip holds for the payload offsets below
  0x3F0000.
\<close>

theorem lorom_round_trip:
  assumes "mapper rom = lorom"
    and "sint (header_size rom) \<le> sint p"
    and "sint p < sint (header_size rom) + min (sint (rom_size rom)) 0x3F0000"
  shows "snes_to_pc rom (pc_to_snes rom p) = p"
proof -
  have "uint (p - header_size rom) = sint p - sint (header_size rom)"
    using assms(2,3) by (intro uint_payload_offset) simp_all
  then have "p - header_size rom < 0x3F0000"
    using assms(3) by (simp add: word_less_alt)
  then have "snes_to_pc rom (lorom_snes (p - header_size rom)) = p - header_size rom + header_size rom"
    using assms(1) by (intro snes_to_pc_lorom_snes)
  then show ?thesis using assms(1) by (simp add: pc_to_snes_lorom)
qed

theorem lorom_round_trip_witness:
  "mapper lorom_4mb = lorom
   \<and> sint (header_size lorom_4mb) \<le> sint (0x123456 :: pcaddress)
   \<and> sint (0x123456 :: pcaddress)
       < sint (header_size lorom_4mb) + min (sint (rom_size lorom_4mb)) 0x3F0000
   \<and> snes_to_pc lorom_4mb (pc_to_snes lorom_4mb 0x123456) = 0x123456"
  using lorom_round_trip [of lorom_4mb "0x123456"]
  by (simp add: lorom_4mb_def rom_image_def)

text \<open>
  The claim as it stands, for every offset of the payload range, fails on a LoROM of
  4 MiB: the offset 0x3F0000 lies in the payload, \<open>pc_to_snes\<close> sends it to 0x7E8000,
  and \<open>snes_to_pc\<close> rejects the banks 0x7E and 0x7F (\<open>address & 0xFE0000 == 0x7E0000\<close>)
  and returns -1.
\<close>

theorem lorom_round_trip_counterexample:
  "mapper lorom_4mb = lorom
   \<and> sint (header_size lorom_4mb) \<le> sint (0x3F0000 :: pcaddress)
   \<and> sint (0x3F0000 :: pcaddress) < sint (header_size lorom_4mb) + sint (rom_size lorom_4mb)
   \<and> snes_to_pc lorom_4mb (pc_to_snes lorom_4mb 0x3F0000) \<noteq> 0x3F0000"
  by (simp add: lorom_4mb_def rom_image_def snes_to_pc_def snes_to_pc_branch_def pc_to_snes_def)

subsection \<open>The SA-1 mapper\<close>

lemma sa1_bank_loop_Some:
  "sa1_bank_loop banks a i n = Some r \<Longrightarrow>
     \<exists>j. i \<le> j \<and> j < i + n \<and> banks ! j = a AND 0x700000 \<and> r = sa1_snes (of_nat j) a"
proof (induction n arbitrary: i)
  case 0
  then show ?case by simp
next
  case (Suc n)
  show ?case
  proof (cases "banks ! i = a AND 0x700000")
    case True
    with Suc.prems have "r = sa1_snes (of_nat i) a" by (simp add: sa1_snes_def)
    with True show ?thesis by auto
  next
    case False
    with Suc.prems have "sa1_bank_loop banks a (Suc i) n = Some r" by simp
    from Suc.IH [OF this] obtain j where
      "Suc i \<le> j" "j < Suc i + n" "banks ! j = a AND 0x700000" "r = sa1_snes (of_nat j) a"
      by blast
    then show ?thesis by (intro exI [of _ j]) simp
  qed
qed

lemma sa1_bank_loop_None:
  "sa1_bank_loop banks a i n = None \<longleftrightarrow> (\<forall>j. i \<le> j \<and> j < i + n \<longrightarrow> banks ! j \<noteq> a AND 0x700000)"
proof (induction n arbitrary: i)
  case 0
  then show ?case by auto
next
  case (Suc n)
  show ?case
  proof (cases "banks ! i = a AND 0x700000")
    case True
    then show ?thesis by auto
  next
    case False
    have "\<And>j. (i \<le> j \<and> j < i + Suc n) \<longleftrightarrow> (j = i \<or> (Suc i \<le> j \<and> j < Suc i + n))"
      by arith
    then have "(\<forall>j. i \<le> j \<and> j < i + Suc n \<longrightarrow> banks ! j \<noteq> a AND 0x700000)
        \<longleftrightarrow> (\<forall>j. Suc i \<le> j \<and> j < Suc i + n \<longrightarrow> banks ! j \<noteq> a AND 0x700000)"
      using False by (simp only:) blast
    with False Suc.IH [of "Suc i"] show ?thesis by simp
  qed
qed

lemma bank_not_in_table:
  assumes "length banks = 8" "b \<notin> set banks" "j < 8"
  shows "banks ! j \<noteq> b"
  using assms nth_mem [of j banks] by auto

lemma slot_cases:
  assumes "j < (8::nat)" "j \<notin> {2, 3, 6, 7}"
  shows "j = 0 \<or> j = 1 \<or> j = 4 \<or> j = 5"
  using assms by auto presburger?

lemma mapped_slot_word:
  assumes "j = 0 \<or> j = 1 \<or> j = 4 \<or> j = (5::nat)"
  shows "(of_nat j :: int32) < 2 ^ 3 \<and> \<not> bit (of_nat j :: int32) 1 \<and> unat (of_nat j :: int32) = j"
  using assms by auto

lemma snes_to_pc_sa1_snes:
  assumes "mapper rom = sa1rom" "a < 2 ^ 23"
    and "j = 0 \<or> j = 1 \<or> j = 4 \<or> j = (5::nat)"
    and "sa1banks rom ! j = a AND 0x700000"
  shows "snes_to_pc rom (sa1_snes (of_nat j) a) = a + header_size rom"
proof -
  let ?w = "of_nat j :: int32"
  from mapped_slot_word [OF assms(3)]
  have w: "?w < 2 ^ 3" and b: "\<not> bit ?w 1" and u: "unat ?w = j" by simp_all
  have "snes_to_pc_branch rom (sa1_snes ?w a) =
      Inr ((sa1banks rom ! unat (signed_drop_bit 21 (sa1_snes ?w a AND 0xE00000)))
            OR signed_drop_bit 1 (sa1_snes ?w a AND 0x1F0000) OR (sa1_snes ?w a AND 0x007FFF))"
    using assms(1) sa1_first_branch [OF w b, of a] by (simp add: snes_to_pc_branch_def)
  also have "\<dots> = Inr a"
    using sa1_back [OF w assms(2)] by (simp only: sa1_index [OF w] u assms(4))
  finally show ?thesis by (simp add: snes_to_pc_def)
qed

lemma and_bank_idem: "(a AND 0x700000) AND 0x700000 = (a AND 0x700000 :: int32)"
  by (simp add: and.assoc)

text \<open>
  C6 (as amended). On an SA1ROM whose bank table has 8 entries, of which the slots 2, 3,
  6 and 7 hold no bank base (a value such as -1, which no \<open>address & 0x700000\<close> equals),
  and for a PC offset \<open>p\<close> of the payload range: if \<open>(p - header_size) & 0x700000\<close> is one
  of the 8 entries and \<open>p - header_size\<close> is below 0x800000, then
  \<open>snes_to_pc(pc_to_snes(p)) = p\<close>; if it is none of the 8 entries, then \<open>pc_to_snes(p)\<close>
  is the sentinel -1.
\<close>

theorem sa1rom_round_trip:
  assumes "mapper rom = sa1rom"
    and "length (sa1banks rom) = 8"
    and "\<forall>j \<in> {2, 3, 6, 7}. sa1banks rom ! j AND 0x700000 \<noteq> sa1banks rom ! j"
    and "sint (header_size rom) \<le> sint p"
    and "sint p < sint (header_size rom) + sint (rom_size rom)"
  shows "((p - header_size rom) AND 0x700000 \<in> set (sa1banks rom)
            \<and> sint p - sint (header_size rom) < 0x800000
          \<longrightarrow> snes_to_pc rom (pc_to_snes rom p) = p)
       \<and> ((p - header_size rom) AND 0x700000 \<notin> set (sa1banks rom)
          \<longrightarrow> pc_to_snes rom p = - 1)"
proof (intro conjI impI)
  let ?a = "p - header_size rom"
  let ?banks = "sa1banks rom"
  assume "?a AND 0x700000 \<notin> set ?banks"
  then have "\<forall>j. 0 \<le> j \<and> j < 0 + 8 \<longrightarrow> ?banks ! j \<noteq> ?a AND 0x700000"
    using bank_not_in_table [OF assms(2)] by auto
  then have "sa1_bank_loop ?banks ?a 0 8 = None"
    by (simp only: sa1_bank_loop_None)
  then show "pc_to_snes rom p = - 1"
    using assms(1) by (simp add: pc_to_snes_def Let_def)
next
  let ?a = "p - header_size rom"
  let ?banks = "sa1banks rom"
  assume h: "?a AND 0x700000 \<in> set ?banks \<and> sint p - sint (header_size rom) < 0x800000"
  have "uint ?a = sint p - sint (header_size rom)"
    using assms(4) h by (intro uint_payload_offset) simp_all
  then have "?a < 0x800000" using h by (simp add: word_less_alt)
  then have a: "?a < 2 ^ 23" by simp
  from h obtain k where "k < 8" "?banks ! k = ?a AND 0x700000"
    using assms(2) by (auto simp: in_set_conv_nth)
  then have "sa1_bank_loop ?banks ?a 0 8 \<noteq> None"
    by (simp only: sa1_bank_loop_None) auto
  then obtain r where r: "sa1_bank_loop ?banks ?a 0 8 = Some r" by auto
  from sa1_bank_loop_Some [OF this] obtain j where
    j: "j < 8" "?banks ! j = ?a AND 0x700000" "r = sa1_snes (of_nat j) ?a" by auto
  have "j \<notin> {2, 3, 6, 7}"
  proof
    assume "j \<in> {2, 3, 6, 7}"
    with assms(3) have "?banks ! j AND 0x700000 \<noteq> ?banks ! j" by blast
    then show False by (simp only: j(2) and_bank_idem)
  qed
  with j(1) have "j = 0 \<or> j = 1 \<or> j = 4 \<or> j = 5" by (rule slot_cases)
  from snes_to_pc_sa1_snes [OF assms(1) a this j(2)]
  have "snes_to_pc rom r = p" by (simp add: j(3))
  moreover have "pc_to_snes rom p = r"
    using assms(1) r by (simp add: pc_to_snes_def Let_def)
  ultimately show "snes_to_pc rom (pc_to_snes rom p) = p" by simp
qed

theorem sa1rom_round_trip_witness:
  "mapper sa1_8mb = sa1rom \<and> length (sa1banks sa1_8mb) = 8
   \<and> sa1banks sa1_8mb ! 2 AND 0x700000 \<noteq> sa1banks sa1_8mb ! 2
   \<and> sa1banks sa1_8mb ! 3 AND 0x700000 \<noteq> sa1banks sa1_8mb ! 3
   \<and> sa1banks sa1_8mb ! 6 AND 0x700000 \<noteq> sa1banks sa1_8mb ! 6
   \<and> sa1banks sa1_8mb ! 7 AND 0x700000 \<noteq> sa1banks sa1_8mb ! 7
   \<and> sint (header_size sa1_8mb) \<le> sint (0x312545 :: pcaddress)
   \<and> sint (0x312545 :: pcaddress) < sint (header_size sa1_8mb) + sint (rom_size sa1_8mb)
   \<and> (0x312545 - header_size sa1_8mb) AND 0x700000 \<in> set (sa1banks sa1_8mb)
   \<and> sint (0x312545 :: pcaddress) - sint (header_size sa1_8mb) < 0x800000
   \<and> snes_to_pc sa1_8mb (pc_to_snes sa1_8mb 0x312545) = 0x312545
   \<and> sint (header_size sa1_8mb) \<le> sint (0x400200 :: pcaddress)
   \<and> sint (0x400200 :: pcaddress) < sint (header_size sa1_8mb) + sint (rom_size sa1_8mb)
   \<and> (0x400200 - header_size sa1_8mb) AND 0x700000 \<notin> set (sa1banks sa1_8mb)
   \<and> pc_to_snes sa1_8mb 0x400200 = - 1"
  using sa1rom_round_trip [of sa1_8mb "0x312545"] sa1rom_round_trip [of sa1_8mb "0x400200"]
  by (simp add: sa1_8mb_def rom_image_def)

text \<open>
  The claim as it stands, for every offset of the payload range whose masked value
  matches a bank, fails on an SA-1 image of 12 MiB: the offset 0x800000 behind the
  header matches the bank base 0, since the mask 0x700000 drops bit 23, and the round
  trip yields the offset 0 behind the header.
\<close>

lemma sa1_bank_loop_numeral:
  "sa1_bank_loop banks address i (numeral k) =
     (if banks ! i = (address AND 0x700000)
      then Some (0x008000 OR push_bit 21 (of_nat i) OR push_bit 1 (address AND 0x0F8000)
                 OR (address AND 0x7FFF))
      else sa1_bank_loop banks address (Suc i) (pred_numeral k))"
  by (simp add: numeral_eq_Suc)

theorem sa1rom_round_trip_counterexample:
  "mapper sa1_12mb = sa1rom
   \<and> sint (header_size sa1_12mb) \<le> sint (0x800200 :: pcaddress)
   \<and> sint (0x800200 :: pcaddress) < sint (header_size sa1_12mb) + sint (rom_size sa1_12mb)
   \<and> (0x800200 - header_size sa1_12mb) AND 0x700000 \<in> set (sa1banks sa1_12mb)
   \<and> snes_to_pc sa1_12mb (pc_to_snes sa1_12mb 0x800200) \<noteq> 0x800200"
  by (simp add: sa1_12mb_def rom_image_def snes_to_pc_def snes_to_pc_branch_def pc_to_snes_def
      sa1_bank_loop_numeral)

section \<open>Reserved blocks\<close>

lemma bFFFF: "bit (0xFFFF :: int) n \<longleftrightarrow> n < 16"
  using bit_field_const [of "0xFFFF" 0 16 n] by (simp add: mask_eq_exp_minus_1)

lemma le16_code:
  "(ucast ((ucast lo :: int32) OR push_bit 8 (ucast hi)) :: u16) = le16 lo (hi :: u8)"
  by (rule bit_word_eqI) (auto simp: le16_def bit_ucast_iff bit_or_iff bit_push_bit_iff)

lemma ucast_u16_inject: "(ucast (x :: u16) :: int32) = ucast (y :: u16) \<longleftrightarrow> x = y"
proof
  assume eq: "(ucast x :: int32) = ucast y"
  show "x = y"
  proof (rule bit_word_eqI)
    fix n assume n: "n < LENGTH(16)"
    from eq have "bit (ucast x :: int32) n = bit (ucast y :: int32) n" by simp
    with n show "bit x n = bit y n" by (simp add: bit_ucast_iff)
  qed
qed simp

lemma chksum_code:
  "(ucast (sz :: u16) :: int32) XOR 0xFFFF \<noteq> ucast (c :: u16) \<longleftrightarrow> c \<noteq> sz XOR 0xFFFF"
proof -
  have "(ucast sz :: int32) XOR 0xFFFF = ucast (sz XOR 0xFFFF)"
    by (rule bit_word_eqI) (auto simp: bit_ucast_iff bit_xor_iff bFFFF)
  then show ?thesis by (auto simp: ucast_u16_inject)
qed

lemma sint_minus_small:
  fixes p :: int32
  assumes "8 \<le> sint p" "0 \<le> k" "k \<le> 8"
  shows "sint (p - word_of_int k) = sint p - k"
proof -
  have k: "sint (word_of_int k :: int32) = k"
    using assms(2,3) by (simp add: signed_of_int signed_take_bit_int_eq_self)
  have "sint p < 2 ^ 31" using sint_less [of p] by simp
  have "sint (p - word_of_int k) = signed_take_bit 31 (sint p - k)"
    by (simp add: sint_word_diff k)
  also have "\<dots> = sint p - k"
    using assms \<open>sint p < 2 ^ 31\<close> by (intro signed_take_bit_int_eq_self) simp_all
  finally show ?thesis .
qed

lemma rats_addresses:
  fixes p :: int32
  assumes "8 \<le> sint p"
  shows "sint (p - 8) = sint p - 8" "sint (p - 8 + 4) = sint p - 4"
    "sint (p - 8 + 4 + 1) = sint p - 3" "sint (p - 8 + 4 + 2) = sint p - 2"
    "sint (p - 8 + 4 + 3) = sint p - 1"
  using sint_minus_small [OF assms, of 8] sint_minus_small [OF assms, of 4]
    sint_minus_small [OF assms, of 3] sint_minus_small [OF assms, of 2]
    sint_minus_small [OF assms, of 1]
  by simp_all

lemma length_rats_tag: "length rats_tag = 4"
  by (simp add: rats_tag_def)

lemma unat_succ_u16: "unat (sz + 1 :: u16) = (unat sz + 1) mod 0x10000"
  by (simp add: unat_word_ariths)

lemma get_rats_size_refines:
  assumes "m_data rom = Some buf" 
    and "8 \<le> sint p"
    and "nat (sint p) \<le> length buf"
  shows "map_sum id (map_option unat) (get_rats_size rom p)
         = Inr (map_option (\<lambda>n. n mod 0x10000) (rats_size_spec buf (nat (sint p))))"
proof -
  have n: "nat (sint p - 8) = nat (sint p) - 8" "nat (sint p - 4) = nat (sint p) - 4"
    "nat (sint p - 3) = nat (sint p) - 3" "nat (sint p - 2) = nat (sint p) - 2"
    "nat (sint p - 1) = nat (sint p) - 1"
    using assms(2) by simp_all
  have r: "nat (sint p) - 8 + 4 \<le> length buf" "nat (sint p) - 4 < length buf"
    "nat (sint p) - 3 < length buf" "nat (sint p) - 2 < length buf"
    "nat (sint p) - 1 < length buf"
    using assms(2,3) by simp_all
  have tag: "bytes_at rom (p - 8) 4 = Inr (take 4 (drop (nat (sint p) - 8) buf))"
    using assms r by (simp add: bytes_at_def rats_addresses n)
  have b0: "byte_at rom (p - 8 + 4) = Inr (buf ! (nat (sint p) - 4))"
    and b1: "byte_at rom (p - 8 + 4 + 1) = Inr (buf ! (nat (sint p) - 3))"
    and b2: "byte_at rom (p - 8 + 4 + 2) = Inr (buf ! (nat (sint p) - 2))"
    and b3: "byte_at rom (p - 8 + 4 + 3) = Inr (buf ! (nat (sint p) - 1))"
    using assms r by (simp_all only: byte_at_def rats_addresses [OF assms(2)] n) simp_all
  have "get_rats_size rom p =
      (if take 4 (drop (nat (sint p) - 8) buf) \<noteq> rats_tag then Inr None
       else if le16 (buf ! (nat (sint p) - 2)) (buf ! (nat (sint p) - 1))
               \<noteq> le16 (buf ! (nat (sint p) - 4)) (buf ! (nat (sint p) - 3)) XOR 0xFFFF
            then Inr None
            else Inr (Some (le16 (buf ! (nat (sint p) - 4)) (buf ! (nat (sint p) - 3)) + 1)))"
    by (simp only: get_rats_size_def Let_def length_rats_tag tag b0 b1 b2 b3 sum.case
        le16_code chksum_code)
  then show ?thesis
    by (simp add: rats_size_spec_def rats_tag_def unat_succ_u16)
qed

lemma absent_iff:
  "map_sum id (map_option unat) r = Inr None \<longleftrightarrow> r = (Inr None :: fault + u16 option)"
  by (cases r) auto

lemma le16_inject: "le16 lo hi = le16 lo' hi' \<longleftrightarrow> lo = lo' \<and> hi = hi'"
proof
  assume eq: "le16 lo hi = le16 lo' hi'"
  have "lo = lo'"
  proof (rule bit_word_eqI)
    fix n assume n: "n < LENGTH(8)"
    from eq have "bit (le16 lo hi) n = bit (le16 lo' hi') n" by simp
    with n show "bit lo n = bit lo' n"
      by (simp add: le16_def bit_or_iff bit_ucast_iff bit_push_bit_iff)
  qed
  moreover have "hi = hi'"
  proof (rule bit_word_eqI)
    fix n assume n: "n < LENGTH(8)"
    from eq have "bit (le16 lo hi) (n + 8) = bit (le16 lo' hi') (n + 8)" by simp
    moreover have "\<not> bit lo (n + 8)" "\<not> bit lo' (n + 8)"
      using bit_imp_le_length [of lo "n + 8"] bit_imp_le_length [of lo' "n + 8"] by auto
    ultimately show "bit hi n = bit hi' n"
      using n by (simp add: le16_def bit_or_iff bit_ucast_iff bit_push_bit_iff)
  qed
  ultimately show "lo = lo' \<and> hi = hi'" ..
qed simp

lemma rats_size_spec_mutated:
  assumes "8 \<le> q" "q \<le> length buf"
    and "rats_size_spec buf q \<noteq> None"
    and "k \<in> {0, 1, 2, 3, 6, 7}"
    and "b \<noteq> buf ! (q - 8 + k)"
  shows "rats_size_spec (buf[q - 8 + k := b]) q = None"
proof -
  let ?buf = "buf[q - 8 + k := b]"
  from assms(3) have tag: "take 4 (drop (q - 8) buf) = map of_char ''STAR''"
    and chk: "le16 (buf ! (q - 2)) (buf ! (q - 1)) = le16 (buf ! (q - 4)) (buf ! (q - 3)) XOR 0xFFFF"
    by (auto simp: rats_size_spec_def Let_def split: if_splits)
  consider "k < 4" | "k = 6" | "k = 7" using assms(4) by auto
  then show ?thesis
  proof cases
    case 1
    have "take 4 (drop (q - 8) ?buf) ! k = b"
      using 1 assms(1,2) by simp
    moreover have "take 4 (drop (q - 8) buf) ! k = buf ! (q - 8 + k)"
      using 1 assms(1,2) by simp
    ultimately have "take 4 (drop (q - 8) ?buf) \<noteq> take 4 (drop (q - 8) buf)"
      using assms(5) by metis
    then show ?thesis by (simp only: rats_size_spec_def Let_def tag) simp
  next
    case 2
    have idx: "q - 8 + k = q - 2" using 2 assms(1) by simp
    have "le16 (?buf ! (q - 2)) (?buf ! (q - 1)) = le16 b (buf ! (q - 1))"
      using assms(1,2) by (simp add: idx)
    moreover have "le16 (?buf ! (q - 4)) (?buf ! (q - 3)) = le16 (buf ! (q - 4)) (buf ! (q - 3))"
      using assms(1,2) by (simp add: idx)
    moreover have "le16 b (buf ! (q - 1)) \<noteq> le16 (buf ! (q - 2)) (buf ! (q - 1))"
      using assms(5) by (simp add: le16_inject idx)
    ultimately show ?thesis using chk by (simp add: rats_size_spec_def Let_def)
  next
    case 3
    have idx: "q - 8 + k = q - 1" using 3 assms(1) by simp
    have "le16 (?buf ! (q - 2)) (?buf ! (q - 1)) = le16 (buf ! (q - 2)) b"
      using assms(1,2) by (simp add: idx)
    moreover have "le16 (?buf ! (q - 4)) (?buf ! (q - 3)) = le16 (buf ! (q - 4)) (buf ! (q - 3))"
      using assms(1,2) by (simp add: idx)
    moreover have "le16 (buf ! (q - 2)) b \<noteq> le16 (buf ! (q - 2)) (buf ! (q - 1))"
      using assms(5) by (simp add: le16_inject idx)
    ultimately show ?thesis using chk by (simp add: rats_size_spec_def Let_def)
  qed
qed

text \<open>
  C4 (as amended). For a PC offset \<open>p\<close> whose 8 header bytes lie inside the buffer (where
  the reads of the C++ are defined), \<open>get_rats_size\<close> returns absent if the 4 bytes at
  \<open>p - 8\<close> are not \<open>"STAR"\<close>, absent if the 16-bit checksum at \<open>p - 2\<close> is not the 16-bit
  size at \<open>p - 4\<close> XOR 0xFFFF, and otherwise the number \<open>size + 1\<close> reduced modulo
  \<open>2^16\<close>: \<open>size + 1\<close> for a size field below 0xFFFF and 0 for the size field 0xFFFF.
  Whenever it returns a size, changing any single byte of the tag or of the checksum to
  another value makes it return absent.
\<close>

theorem get_rats_size_spec:
  assumes "m_data rom = Some buf"
    and "8 \<le> sint p"
    and "nat (sint p) \<le> length buf"
  shows "map_sum id (map_option unat) (get_rats_size rom p)
         = Inr (map_option (\<lambda>n. n mod 0x10000) (rats_size_spec buf (nat (sint p))))
    \<and> (\<forall>k \<in> {0, 1, 2, 3, 6, 7}. \<forall>b.
          get_rats_size rom p \<noteq> Inr None \<longrightarrow> b \<noteq> buf ! (nat (sint p) - 8 + k) \<longrightarrow>
          get_rats_size (rom\<lparr>m_data := Some (buf[nat (sint p) - 8 + k := b])\<rparr>) p = Inr None)"
proof (intro conjI ballI allI impI)
  show r: "map_sum id (map_option unat) (get_rats_size rom p)
         = Inr (map_option (\<lambda>n. n mod 0x10000) (rats_size_spec buf (nat (sint p))))"
    using assms by (rule get_rats_size_refines)
  fix k b
  assume k: "k \<in> {0, 1, 2, 3, 6, 7 :: nat}"
    and ok: "get_rats_size rom p \<noteq> Inr None"
    and b: "b \<noteq> buf ! (nat (sint p) - 8 + k)"
  let ?rom = "rom\<lparr>m_data := Some (buf[nat (sint p) - 8 + k := b])\<rparr>"
  have q: "8 \<le> nat (sint p)" using assms(2) by simp
  have "map_sum id (map_option unat) (get_rats_size ?rom p)
      = Inr (map_option (\<lambda>n. n mod 0x10000)
               (rats_size_spec (buf[nat (sint p) - 8 + k := b]) (nat (sint p))))"
    using assms(2,3) by (intro get_rats_size_refines) simp_all
  moreover have "rats_size_spec buf (nat (sint p)) \<noteq> None"
  proof
    assume "rats_size_spec buf (nat (sint p)) = None"
    with r have "map_sum id (map_option unat) (get_rats_size rom p) = Inr None" by simp
    with ok show False by (simp only: absent_iff)
  qed
  ultimately have "map_sum id (map_option unat) (get_rats_size ?rom p) = Inr None"
    using rats_size_spec_mutated [OF q assms(3) _ k b] by simp
  then show "get_rats_size ?rom p = Inr None" by (simp only: absent_iff)
qed

text \<open>
  The block \<open>"STAR" 04 00 FB FF\<close> yields 5, and every single-byte change of its tag or
  checksum yields absent.
\<close>

theorem get_rats_size_spec_witness:
  "m_data star_rom = Some star_block \<and> 8 \<le> sint (8 :: pcaddress)
   \<and> nat (sint (8 :: pcaddress)) \<le> length star_block
   \<and> rats_size_spec star_block 8 = Some 5
   \<and> map_sum id (map_option unat) (get_rats_size star_rom 8) = Inr (Some 5)
   \<and> get_rats_size (star_rom\<lparr>m_data := Some (star_block[0 := 0x73])\<rparr>) 8 = Inr None
   \<and> get_rats_size (star_rom\<lparr>m_data := Some (star_block[1 := 0x00])\<rparr>) 8 = Inr None
   \<and> get_rats_size (star_rom\<lparr>m_data := Some (star_block[2 := 0x40])\<rparr>) 8 = Inr None
   \<and> get_rats_size (star_rom\<lparr>m_data := Some (star_block[3 := 0x53])\<rparr>) 8 = Inr None
   \<and> get_rats_size (star_rom\<lparr>m_data := Some (star_block[6 := 0xFA])\<rparr>) 8 = Inr None
   \<and> get_rats_size (star_rom\<lparr>m_data := Some (star_block[7 := 0x7F])\<rparr>) 8 = Inr None"
proof -
  have m: "m_data star_rom = Some star_block" by (simp add: star_rom_def)
  have l: "nat (sint (8 :: pcaddress)) \<le> length star_block" by (simp add: star_block_def)
  have s: "rats_size_spec star_block 8 = Some 5"
    by (simp add: rats_size_spec_def star_block_def le16_def)
  have b: "star_block ! 0 \<noteq> 0x73" "star_block ! 1 \<noteq> 0x00" "star_block ! 2 \<noteq> 0x40"
    "star_block ! 3 \<noteq> 0x53" "star_block ! 6 \<noteq> 0xFA" "star_block ! 7 \<noteq> 0x7F"
    by (simp_all add: star_block_def)
  note spec = get_rats_size_spec [OF m _ l]
  have v: "map_sum id (map_option unat) (get_rats_size star_rom 8) = Inr (Some 5)"
    using spec s by simp
  then have "get_rats_size star_rom 8 \<noteq> Inr None" by auto
  with spec s m l b v show ?thesis by simp
qed

text \<open>
  The claim as it stands, the result \<open>size + 1\<close>, fails for the block
  \<open>"STAR" FF FF 00 00\<close>: tag and checksum are in order and the size of the block is
  0x10000, but the sum is computed in a \<open>uint16_t\<close> and the result is 0.
\<close>

theorem get_rats_size_spec_counterexample:
  "m_data largest_block_rom = Some largest_block \<and> 8 \<le> sint (8 :: pcaddress)
   \<and> nat (sint (8 :: pcaddress)) \<le> length largest_block
   \<and> rats_size_spec largest_block 8 = Some 0x10000
   \<and> get_rats_size largest_block_rom 8 = Inr (Some 0)
   \<and> unat (0 :: u16) \<noteq> 0x10000"
  by (simp add: largest_block_rom_def rom_image_def largest_block_def rats_size_spec_def
      le16_def get_rats_size_def bytes_at_def byte_at_def rats_tag_def)

section \<open>Opening a ROM\<close>

lemma header_mask: "(x :: int32) AND 0x7FFF = take_bit 15 x"
proof -
  have "(0x7FFF :: int32) = mask 15" by (simp add: mask_eq_exp_minus_1)
  then show ?thesis by (simp only: take_bit_eq_mask)
qed

lemma unat_header: "unat ((of_nat N :: int32) AND 0x7FFF) = N mod 0x8000"
proof -
  have m: "min (15::nat) 32 = 15" and l: "LENGTH(32) = 32" and e: "(2::nat) ^ 15 = 0x8000"
    by simp_all
  have "unat (take_bit 15 (of_nat N :: int32)) = take_bit 15 (take_bit 32 N)"
    by (simp only: unsigned_take_bit_eq unsigned_of_nat l of_nat_id)
  also have "\<dots> = take_bit 15 N"
    by (simp only: take_bit_take_bit m)
  also have "\<dots> = N mod 0x8000"
    by (simp only: take_bit_eq_mod e)
  finally show ?thesis by (simp only: header_mask)
qed

lemma sint_of_small:
  fixes w :: int32
  assumes "unat w < 2 ^ 31"
  shows "sint w = int (unat w)"
proof -
  have "LENGTH(32) - Suc 0 = 31" by simp
  then have "sint w = signed_take_bit 31 (int (unat w))"
    by (simp only: sint_uint uint_nat)
  also have "\<dots> = int (unat w)"
  proof (rule signed_take_bit_int_eq_self)
    have "- (2 ^ 31) \<le> (0::int)" by simp
    also have "0 \<le> int (unat w)" by (rule of_nat_0_le_iff)
    finally show "- (2 ^ 31) \<le> int (unat w)" .
    show "int (unat w) < 2 ^ 31" using assms by (simp only: of_nat_less_numeral_power_cancel_iff)
  qed
  finally show ?thesis .
qed

lemma sint_header: "sint ((of_nat N :: int32) AND 0x7FFF) = int (N mod 0x8000)"
proof -
  have "unat ((of_nat N :: int32) AND 0x7FFF) < 2 ^ 31"
    by (simp only: unat_header) (rule order_less_trans [where y = "0x8000"], simp_all)
  then show ?thesis by (simp only: sint_of_small unat_header)
qed

lemma sint_header_plus:
  fixes h :: int32
  assumes "0 \<le> sint h" "sint h < 0x8000" "0 \<le> k" "k < 0x8000"
  shows "sint (h + word_of_int k) = sint h + k"
proof -
  have k: "sint (word_of_int k :: int32) = k"
    using assms(3,4) by (simp add: signed_of_int signed_take_bit_int_eq_self)
  have "sint (h + word_of_int k) = signed_take_bit 31 (sint h + k)"
    by (simp add: sint_word_add k)
  also have "\<dots> = sint h + k"
    using assms by (intro signed_take_bit_int_eq_self) simp_all
  finally show ?thesis .
qed

lemma ROM_open_not_opened:
  "\<not> can_open io (name rom) ''r+b'' \<Longrightarrow> ROM_open M io rom = Inr (False, rom\<lparr>m_data := None\<rparr>)"
  by (simp add: ROM_open_def)

lemma ROM_open_not_read:
  assumes "can_open io (name rom) ''r+b''"
    and "read_all io (name rom) False
           (unat (M + ((of_nat (file_size io (name rom)) :: int32) AND 0x7FFF))) = None"
  shows "fst (projr (ROM_open M io rom)) = False \<and> isl (ROM_open M io rom) = False"
  using assms by (simp add: ROM_open_def Let_def)

lemma ROM_open_read:
  fixes M :: int32
  defines "hs \<equiv> \<lambda>io rom. (of_nat (file_size io (name rom)) :: int32) AND 0x7FFF"
  assumes "can_open io (name rom) ''r+b''"
    and "read_all io (name rom) False (unat (M + hs io rom)) = Some buf"
  shows "ROM_open M io rom =
    (let r = rom\<lparr>rom_size := of_nat (file_size io (name rom)) - hs io rom,
                  header_size := hs io rom, m_data := Some buf\<rparr>
     in case byte_at r (hs io rom + 0x7fd5) of Inl f \<Rightarrow> Inl f | Inr b \<Rightarrow>
          if b = 0x23
          then (case byte_at r (hs io rom + 0x7fd7) of Inl f \<Rightarrow> Inl f | Inr c \<Rightarrow>
                  if c = 0x0D then Inr (True, r\<lparr>mapper := fullsa1rom\<rparr>)
                  else Inr (True, r\<lparr>mapper := sa1rom\<rparr>))
          else Inr (True, r\<lparr>mapper := lorom\<rparr>))"
  using assms(2,3) by (simp add: ROM_open_def Let_def hs_def cong: sum.case_cong if_cong)

lemma header_offset:
  fixes N :: nat
  defines "hs \<equiv> (of_nat N :: int32) AND 0x7FFF"
  assumes "0 \<le> k" "k < 0x8000"
  shows "sint (hs + word_of_int k) = sint hs + k" "nat (sint hs + k) = nat (sint hs) + nat k"
    "0 \<le> sint hs"
proof -
  have h: "sint hs = int (N mod 0x8000)" unfolding hs_def by (rule sint_header)
  then show 0: "0 \<le> sint hs" by simp
  have "int (N mod 0x8000) < 0x8000" by simp
  with h have "sint hs < 0x8000" by simp
  with 0 show "sint (hs + word_of_int k) = sint hs + k"
    using assms(2,3) by (intro sint_header_plus)
  show "nat (sint hs + k) = nat (sint hs) + nat k"
    using 0 assms(2) by (simp add: nat_add_distrib)
qed

lemma ROM_open_success:
  fixes M :: int32
  assumes "ROM_open M io rom = Inr (True, rom')"
  defines "hs \<equiv> (of_nat (file_size io (name rom)) :: int32) AND 0x7FFF"
  obtains buf mp where
    "rom' = rom\<lparr>rom_size := of_nat (file_size io (name rom)) - hs, header_size := hs,
                 m_data := Some buf, mapper := mp\<rparr>"
    "nat (sint hs) + 0x7FD5 < length buf"
    "buf ! (nat (sint hs) + 0x7FD5) = 0x23 \<Longrightarrow> nat (sint hs) + 0x7FD7 < length buf"
    "mp = (if buf ! (nat (sint hs) + 0x7FD5) = 0x23
           then (if buf ! (nat (sint hs) + 0x7FD7) = 0x0D then fullsa1rom else sa1rom)
           else lorom)"
proof -
  let ?N = "file_size io (name rom)"
  have op: "can_open io (name rom) ''r+b''"
    using assms(1) ROM_open_not_opened [of io rom M] by auto
  have "read_all io (name rom) False (unat (M + hs)) \<noteq> None"
    using assms(1) ROM_open_not_read [OF op, of M] unfolding hs_def by auto
  then obtain buf where buf: "read_all io (name rom) False (unat (M + hs)) = Some buf" by auto
  let ?r = "rom\<lparr>rom_size := of_nat ?N - hs, header_size := hs, m_data := Some buf\<rparr>"
  note unfold = ROM_open_read [OF op buf [unfolded hs_def], folded hs_def, unfolded Let_def]
  have o1: "sint (hs + 0x7fd5) = sint hs + 0x7fd5" "nat (sint hs + 0x7fd5) = nat (sint hs) + 0x7fd5"
    and o2: "sint (hs + 0x7fd7) = sint hs + 0x7fd7" "nat (sint hs + 0x7fd7) = nat (sint hs) + 0x7fd7"
    and h0: "0 \<le> sint hs"
    using header_offset [of "0x7fd5" ?N] header_offset [of "0x7fd7" ?N]
    unfolding hs_def by simp_all
  have b1: "byte_at ?r (hs + 0x7fd5) =
      (if nat (sint hs) + 0x7FD5 < length buf then Inr (buf ! (nat (sint hs) + 0x7FD5))
       else Inl OutOfBuffer)"
    using h0 by (simp add: byte_at_def o1)
  have b2: "byte_at ?r (hs + 0x7fd7) =
      (if nat (sint hs) + 0x7FD7 < length buf then Inr (buf ! (nat (sint hs) + 0x7FD7))
       else Inl OutOfBuffer)"
    using h0 by (simp add: byte_at_def o2)
  from assms(1) have res: "(case byte_at ?r (hs + 0x7fd5) of Inl f \<Rightarrow> Inl f | Inr b \<Rightarrow>
          if b = 0x23
          then (case byte_at ?r (hs + 0x7fd7) of Inl f \<Rightarrow> Inl f | Inr c \<Rightarrow>
                  if c = 0x0D then Inr (True, ?r\<lparr>mapper := fullsa1rom\<rparr>)
                  else Inr (True, ?r\<lparr>mapper := sa1rom\<rparr>))
          else Inr (True, ?r\<lparr>mapper := lorom\<rparr>)) = Inr (True, rom')"
    by (simp only: unfold)
  have in1: "nat (sint hs) + 0x7FD5 < length buf"
    using res by (simp only: b1 split: if_splits) simp
  show thesis
  proof (cases "buf ! (nat (sint hs) + 0x7FD5) = 0x23")
    case False
    with res in1 have "rom' = ?r\<lparr>mapper := lorom\<rparr>" by (simp add: b1)
    with in1 False show thesis by (intro that [where buf = buf and mp = lorom]) simp_all
  next
    case True
    with res in1 have in2: "nat (sint hs) + 0x7FD7 < length buf"
      by (simp add: b1 b2 split: if_splits)
    with res in1 True have
      "rom' = ?r\<lparr>mapper := (if buf ! (nat (sint hs) + 0x7FD7) = 0x0D then fullsa1rom else sa1rom)\<rparr>"
      by (simp add: b1 b2 split: if_splits)
    with in1 in2 True show thesis
      by (intro that [where buf = buf
            and mp = "if buf ! (nat (sint hs) + 0x7FD7) = 0x0D then fullsa1rom else sa1rom"])
        simp_all
  qed
qed

lemma open_full_sa1_file:
  "ROM_open MAX_ROM_16mb rom_files (unopened_rom ''full_sa1.smc'') =
     Inr (True, (unopened_rom ''full_sa1.smc'')
        \<lparr>rom_size := 0x100000, header_size := 0x200,
         m_data := Some (full_sa1_file @ replicate (0x1000200 - 0x100200) 0),
         mapper := fullsa1rom\<rparr>)"
  by (simp add: ROM_open_def Let_def rom_files_def unopened_rom_def rom_image_def
      MAX_ROM_16mb_def byte_at_def full_sa1_file_def nth_append)

lemma open_sa1_file:
  "ROM_open MAX_ROM_16mb rom_files (unopened_rom ''sa1.sfc'') =
     Inr (True, (unopened_rom ''sa1.sfc'')
        \<lparr>rom_size := 0x100000, header_size := 0,
         m_data := Some (sa1_file @ replicate (0x1000000 - 0x100000) 0),
         mapper := sa1rom\<rparr>)"
  by (simp add: ROM_open_def Let_def rom_files_def unopened_rom_def rom_image_def
      MAX_ROM_16mb_def byte_at_def sa1_file_def nth_append)

lemma open_plain_file:
  "ROM_open MAX_ROM_16mb rom_files (unopened_rom ''plain.sfc'') =
     Inr (True, (unopened_rom ''plain.sfc'')
        \<lparr>rom_size := 0x100000, header_size := 0,
         m_data := Some (plain_file @ replicate (0x1000000 - 0x100000) 0),
         mapper := lorom\<rparr>)"
  by (simp add: ROM_open_def Let_def rom_files_def unopened_rom_def rom_image_def
      MAX_ROM_16mb_def byte_at_def plain_file_def nth_append)

text \<open>
  C5. After a successful \<open>open\<close> the mapper is determined by two bytes of the loaded
  buffer: with \<open>h\<close> the header size, it is FullSA1ROM if the byte at \<open>h + 0x7FD5\<close> is 0x23
  and the byte at \<open>h + 0x7FD7\<close> is 0x0D, SA1ROM if the first is 0x23 and the second is
  anything else, and LoROM if the first is not 0x23. Both bytes lie inside the buffer
  when they are read.
\<close>

theorem ROM_open_mapper:
  assumes "ROM_open M io rom = Inr (True, rom')"
  shows "\<exists>buf h. m_data rom' = Some buf \<and> h = nat (sint (header_size rom'))
      \<and> h + 0x7FD5 < length buf
      \<and> (buf ! (h + 0x7FD5) = 0x23 \<longrightarrow> h + 0x7FD7 < length buf)
      \<and> mapper rom' =
          (if buf ! (h + 0x7FD5) = 0x23
           then (if buf ! (h + 0x7FD7) = 0x0D then fullsa1rom else sa1rom)
           else lorom)"
  using assms by (rule ROM_open_success) simp

theorem ROM_open_mapper_witness:
  "(\<exists>rom'. ROM_open MAX_ROM_16mb rom_files (unopened_rom ''full_sa1.smc'') = Inr (True, rom')
       \<and> mapper rom' = fullsa1rom)
   \<and> (\<exists>rom'. ROM_open MAX_ROM_16mb rom_files (unopened_rom ''sa1.sfc'') = Inr (True, rom')
       \<and> mapper rom' = sa1rom)
   \<and> (\<exists>rom'. ROM_open MAX_ROM_16mb rom_files (unopened_rom ''plain.sfc'') = Inr (True, rom')
       \<and> mapper rom' = lorom)"
  using ROM_open_mapper [OF open_full_sa1_file] ROM_open_mapper [OF open_sa1_file]
    ROM_open_mapper [OF open_plain_file]
  by (simp add: open_full_sa1_file open_sa1_file open_plain_file
      full_sa1_file_def sa1_file_def plain_file_def nth_append)

text \<open>
  C8. After a successful \<open>open\<close> of a file of \<open>N\<close> bytes, \<open>header_size\<close> is \<open>N mod 0x8000\<close>
  and \<open>size\<close> is \<open>N - header_size\<close>. The second equation is one of \<open>int\<close> values, since
  \<open>size\<close> is the file size cast to \<open>int\<close>; it is one of numbers when \<open>N\<close> is below
  \<open>2^31\<close>.
\<close>

theorem ROM_open_sizes:
  assumes "ROM_open M io rom = Inr (True, rom')"
  shows "sint (header_size rom') = int (file_size io (name rom) mod 0x8000)
      \<and> rom_size rom' = of_nat (file_size io (name rom)) - header_size rom'
      \<and> (file_size io (name rom) < 2 ^ 31 \<longrightarrow>
            sint (rom_size rom')
            = int (file_size io (name rom)) - int (file_size io (name rom) mod 0x8000))"
proof -
  let ?N = "file_size io (name rom)"
  let ?hs = "(of_nat ?N :: int32) AND 0x7FFF"
  from assms obtain buf mp where
    r: "rom' = rom\<lparr>rom_size := of_nat ?N - ?hs, header_size := ?hs,
                     m_data := Some buf, mapper := mp\<rparr>"
    by (rule ROM_open_success)
  have h: "sint (header_size rom') = int (?N mod 0x8000)"
    by (simp add: r sint_header)
  have s: "rom_size rom' = of_nat ?N - header_size rom'"
    by (simp add: r)
  have "sint (rom_size rom') = int ?N - int (?N mod 0x8000)" if n: "?N < 2 ^ 31"
  proof -
    have "unat (of_nat ?N :: int32) = ?N"
      using n by (simp add: unat_of_nat)
    with n have sn: "sint (of_nat ?N :: int32) = int ?N"
      using sint_of_small [of "of_nat ?N"] by simp
    have "sint (rom_size rom') = signed_take_bit 31 (int ?N - int (?N mod 0x8000))"
      by (simp only: s sint_word_diff sn h) simp
    also have "\<dots> = int ?N - int (?N mod 0x8000)"
    proof (rule signed_take_bit_int_eq_self)
      have "?N mod 0x8000 \<le> ?N" by (rule mod_less_eq_dividend)
      then show "- (2 ^ 31) \<le> int ?N - int (?N mod 0x8000)" by simp
      have "int ?N < 2 ^ 31" using n by (simp only: of_nat_less_numeral_power_cancel_iff)
      then show "int ?N - int (?N mod 0x8000) < 2 ^ 31" by simp
    qed
    finally show ?thesis .
  qed
  with h s show ?thesis by blast
qed

text \<open>
  A file of 1,049,088 bytes yields \<open>header_size = 512\<close>, a file of 1,048,576 bytes yields
  \<open>header_size = 0\<close>, and both yield \<open>size = 0x100000\<close>.
\<close>

theorem ROM_open_sizes_witness:
  "file_size rom_files (name (unopened_rom ''full_sa1.smc'')) = 1049088
   \<and> (\<exists>rom'. ROM_open MAX_ROM_16mb rom_files (unopened_rom ''full_sa1.smc'') = Inr (True, rom')
       \<and> sint (header_size rom') = 512 \<and> sint (rom_size rom') = 0x100000)
   \<and> file_size rom_files (name (unopened_rom ''plain.sfc'')) = 1048576
   \<and> (\<exists>rom'. ROM_open MAX_ROM_16mb rom_files (unopened_rom ''plain.sfc'') = Inr (True, rom')
       \<and> sint (header_size rom') = 0 \<and> sint (rom_size rom') = 0x100000)"
proof -
  have n1: "file_size rom_files (name (unopened_rom ''full_sa1.smc'')) = 1049088"
    and n2: "file_size rom_files (name (unopened_rom ''plain.sfc'')) = 1048576"
    by (simp_all add: rom_files_def unopened_rom_def)
  let ?full = "(unopened_rom ''full_sa1.smc'')
        \<lparr>rom_size := 0x100000, header_size := 0x200,
         m_data := Some (full_sa1_file @ replicate (0x1000200 - 0x100200) 0),
         mapper := fullsa1rom\<rparr>"
  let ?plain = "(unopened_rom ''plain.sfc'')
        \<lparr>rom_size := 0x100000, header_size := 0,
         m_data := Some (plain_file @ replicate (0x1000000 - 0x100000) 0),
         mapper := lorom\<rparr>"
  have "sint (header_size ?full) = 512 \<and> sint (rom_size ?full) = 0x100000"
    using ROM_open_sizes [OF open_full_sa1_file] by (simp add: n1)
  with open_full_sa1_file
  have "\<exists>rom'. ROM_open MAX_ROM_16mb rom_files (unopened_rom ''full_sa1.smc'') = Inr (True, rom')
       \<and> sint (header_size rom') = 512 \<and> sint (rom_size rom') = 0x100000"
    by blast
  moreover have "sint (header_size ?plain) = 0 \<and> sint (rom_size ?plain) = 0x100000"
    using ROM_open_sizes [OF open_plain_file] by (simp add: n2)
  with open_plain_file
  have "\<exists>rom'. ROM_open MAX_ROM_16mb rom_files (unopened_rom ''plain.sfc'') = Inr (True, rom')
       \<and> sint (header_size rom') = 0 \<and> sint (rom_size rom') = 0x100000"
    by blast
  ultimately show ?thesis using n1 n2 by blast
qed

section \<open>The patch staging buffer\<close>

lemma stream_write_fold:
  "foldl stream_write ss cs = (if ios_out (mode ss) then ss\<lparr>str := str ss @ concat cs\<rparr> else ss)"
  by (induction cs arbitrary: ss) (auto simp: stream_write_def)

lemma appends_result:
  assumes "appends this ops (h(this \<mapsto> pf)) = Inr h'"
  shows "h' = h(this \<mapsto> pf\<lparr>m_data_stream :=
            foldl stream_write (m_data_stream pf) (map appended_bytes ops)\<rparr>)"
  using assms
proof (induction ops arbitrary: pf)
  case Nil
  then show ?case by simp
next
  case (Cons op ops)
  show ?case
  proof (cases op)
    case (Formatted buf)
    let ?pf = "pf\<lparr>m_data_stream := stream_write (m_data_stream pf) buf\<rparr>"
    from Cons.prems Formatted have "appends this ops (h(this \<mapsto> ?pf)) = Inr h'"
      by (simp add: patchfile_fprintf_def fun_upd_same del: fun_upd_apply)
    from Cons.IH [OF this] show ?thesis by (simp add: Formatted)
  next
    case (Raw bindata sz)
    let ?pf = "pf\<lparr>m_data_stream := stream_write (m_data_stream pf) (take sz bindata)\<rparr>"
    from Cons.prems Raw have "appends this ops (h(this \<mapsto> ?pf)) = Inr h'"
      by (simp add: patchfile_fwrite_def fun_upd_same del: fun_upd_apply split: if_splits)
    from Cons.IH [OF this] show ?thesis by (simp add: Raw)
  qed
qed

lemma staged_object:
  assumes "appends this ops (patchfile_new this pth md org h0) = Inr h1"
    and "patchfile_close this h1 = Inr h2"
  shows "h2 = h0(this \<mapsto>
      \<lparr>m_fs_path = pth, m_path = map tolower pth,
       m_data_stream = \<lparr>mode = md, str = written md ops\<rparr>,
       m_data_pf = written md ops,
       m_vfile = Some \<lparr>path = path_of this, buffer = data_of this,
                       length_mf = length (written md ops)\<rparr>,
       m_from_meimei = (org = meimei), m_binary = ios_binary md\<rparr>)"
proof -
  let ?pf0 = "\<lparr>m_fs_path = pth, m_path = map tolower pth,
        m_data_stream = \<lparr>mode = md, str = []\<rparr>, m_data_pf = [],
        m_vfile = Some new_memoryfile,
        m_from_meimei = (org = meimei), m_binary = ios_binary md\<rparr>"
  have n: "patchfile_new this pth md org h0 = h0(this \<mapsto> ?pf0)"
    by (simp add: patchfile_new_def)
  from appends_result [OF assms(1) [unfolded n]]
  have h1: "h1 = h0(this \<mapsto> ?pf0\<lparr>m_data_stream := \<lparr>mode = md, str = written md ops\<rparr>\<rparr>)"
    by (simp add: patchfile_new_def stream_write_fold written_def)
  from assms(2) show ?thesis
    by (simp add: h1 patchfile_close_def new_memoryfile_def)
qed

lemma read_own_data:
  assumes "h a = Some pf"
  shows "read_cstr h (data_of a) (length (m_data_pf pf)) = Inr (m_data_pf pf)"
  using assms by (simp add: read_cstr_def)

text \<open>
  C7 (as amended). A \<open>patchfile\<close> constructed with a non-empty path, appended to and
  finalized holds as finalized content the bytes appended (nothing, if its stream was
  not opened for output). Destroying it while the keep flag of its origin is set writes
  a file at the target path if that path can be opened for writing: in binary mode its
  bytes are exactly the finalized content, in text mode they are what the C library's
  text stream stores for the finalized content; if the path cannot be opened, the file
  system is left as it is. Destroying it while the keep flag is unset leaves no file at
  the target path, whether or not one existed, and no other file is touched.
\<close>

theorem patchfile_destroy_spec:
  assumes "pth \<noteq> []"
    and "appends this ops (patchfile_new this pth md org h0) = Inr h1"
    and "patchfile_close this h1 = Inr h2"
  shows "\<exists>pf. h2 this = Some pf \<and> m_data_pf pf = written md ops
     \<and> (keep_of keep org \<and> can_open io pth (if ios_binary md then ''wb'' else ''w'') \<longrightarrow>
          patchfile_destroy io keep this (h2, files)
          = Inr (h2(this := None),
                 files(pth \<mapsto> (if ios_binary md then m_data_pf pf
                                  else text_stream io (m_data_pf pf)))))
     \<and> (keep_of keep org \<and> \<not> can_open io pth (if ios_binary md then ''wb'' else ''w'') \<longrightarrow>
          patchfile_destroy io keep this (h2, files) = Inr (h2(this := None), files))
     \<and> (\<not> keep_of keep org \<longrightarrow>
          patchfile_destroy io keep this (h2, files) = Inr (h2(this := None), files(pth := None)))"
proof -
  let ?pf = "\<lparr>m_fs_path = pth, m_path = map tolower pth,
       m_data_stream = \<lparr>mode = md, str = written md ops\<rparr>,
       m_data_pf = written md ops,
       m_vfile = Some \<lparr>path = path_of this, buffer = data_of this,
                       length_mf = length (written md ops)\<rparr>,
       m_from_meimei = (org = meimei), m_binary = ios_binary md\<rparr>"
  have h2: "h2 this = Some ?pf"
    using staged_object [OF assms(2,3)] by simp
  have r: "read_cstr h2 (data_of this) (length (written md ops)) = Inr (written md ops)"
    using read_own_data [of h2 this ?pf] h2 by simp
  have p: "map tolower pth \<noteq> []" using assms(1) by simp
  show ?thesis
    using h2 r p by (auto simp: patchfile_destroy_def keep_of_def)
qed

lemma tolower_patch: "map tolower ''Patch.ASM'' = ''patch.asm''"
  by code_simp

lemma new_patch:
  "patchfile_new 3 ''Patch.ASM'' md pixi no_objects =
     no_objects(3 \<mapsto>
       \<lparr>m_fs_path = ''Patch.ASM'', m_path = ''patch.asm'',
        m_data_stream = \<lparr>mode = md, str = []\<rparr>, m_data_pf = [],
        m_vfile = Some new_memoryfile,
        m_from_meimei = False, m_binary = ios_binary md\<rparr>)"
  by (simp only: patchfile_new_def tolower_patch) simp

lemma stage_patch:
  "ios_out md \<Longrightarrow>
   appends 3 [Formatted (map of_char ''db ''), Raw (map of_char ''$42'' @ [0x0A, 0x00]) 4]
     (patchfile_new 3 ''Patch.ASM'' md pixi no_objects) = Inr (staged_heap md)"
  by (simp add: new_patch patchfile_fprintf_def patchfile_fwrite_def stream_write_def
      staged_heap_def patch_text_def)

lemma close_patch: "patchfile_close 3 (staged_heap md) = Inr (closed_heap md)"
  by (simp add: patchfile_close_def staged_heap_def closed_heap_def new_memoryfile_def)

text \<open>
  The claim as it stands, a file with exactly the finalized content whenever the keep
  flag is set, fails in two ways: where the target path cannot be opened for writing the
  destructor returns without a file, and where the object was constructed in text mode
  on a C library that writes a line feed as carriage return and line feed the file holds
  8 bytes for the 7 bytes of finalized content.
\<close>

theorem patchfile_destroy_counterexample:
  "''Patch.ASM'' \<noteq> []
   \<and> appends 3 [Formatted (map of_char ''db ''), Raw (map of_char ''$42'' @ [0x0A, 0x00]) 4]
       (patchfile_new 3 ''Patch.ASM'' binary_mode pixi no_objects) = Inr (staged_heap binary_mode)
   \<and> patchfile_close 3 (staged_heap binary_mode) = Inr (closed_heap binary_mode)
   \<and> keep_of keep_pixi pixi
   \<and> patchfile_destroy unwritable_io keep_pixi 3 (closed_heap binary_mode, no_files)
       = Inr (no_objects, no_files)
   \<and> appends 3 [Formatted (map of_char ''db ''), Raw (map of_char ''$42'' @ [0x0A, 0x00]) 4]
       (patchfile_new 3 ''Patch.ASM'' text_mode pixi no_objects) = Inr (staged_heap text_mode)
   \<and> patchfile_close 3 (staged_heap text_mode) = Inr (closed_heap text_mode)
   \<and> patchfile_destroy writable_io keep_pixi 3 (closed_heap text_mode, no_files)
       = Inr (no_objects, no_files(''Patch.ASM'' \<mapsto> map of_char ''db $42'' @ [0x0D, 0x0A]))
   \<and> map of_char ''db $42'' @ [0x0D, 0x0A] \<noteq> patch_text"
proof -
  let ?ops = "[Formatted (map of_char ''db ''), Raw (map of_char ''$42'' @ [0x0A, 0x00]) 4]"
  have ne: "''Patch.ASM'' \<noteq> []" by simp
  have s1: "appends 3 ?ops (patchfile_new 3 ''Patch.ASM'' binary_mode pixi no_objects)
      = Inr (staged_heap binary_mode)"
    by (rule stage_patch) (simp add: binary_mode_def)
  have s2: "appends 3 ?ops (patchfile_new 3 ''Patch.ASM'' text_mode pixi no_objects)
      = Inr (staged_heap text_mode)"
    by (rule stage_patch) (simp add: text_mode_def)
  have d1: "patchfile_destroy unwritable_io keep_pixi 3 (closed_heap binary_mode, no_files)
       = Inr (no_objects, no_files)"
    by (simp add: patchfile_destroy_def closed_heap_def unwritable_io_def writable_io_def
        keep_pixi_def set_keep_def initial_keep_def binary_mode_def no_objects_def no_files_def)
  have d2: "patchfile_destroy writable_io keep_pixi 3 (closed_heap text_mode, no_files)
       = Inr (no_objects, no_files(''Patch.ASM'' \<mapsto> map of_char ''db $42'' @ [0x0D, 0x0A]))"
    by (simp add: patchfile_destroy_def closed_heap_def writable_io_def read_cstr_def
        keep_pixi_def set_keep_def initial_keep_def text_mode_def patch_text_def crlf_def
        no_objects_def no_files_def)
  have k: "keep_of keep_pixi pixi"
    by (simp add: keep_of_def keep_pixi_def set_keep_def initial_keep_def)
  have ne2: "map of_char ''db $42'' @ [0x0D, 0x0A] \<noteq> patch_text"
    by (simp add: patch_text_def)
  show ?thesis
    by (intro conjI; (rule ne s1 s2 d1 d2 k ne2 close_patch))
qed

theorem patchfile_destroy_spec_witness:
  "''Patch.ASM'' \<noteq> []
   \<and> appends 3 [Formatted (map of_char ''db ''), Raw (map of_char ''$42'' @ [0x0A, 0x00]) 4]
       (patchfile_new 3 ''Patch.ASM'' binary_mode pixi no_objects) = Inr (staged_heap binary_mode)
   \<and> patchfile_close 3 (staged_heap binary_mode) = Inr (closed_heap binary_mode)
   \<and> keep_of keep_pixi pixi
   \<and> can_open writable_io ''Patch.ASM'' ''wb''
   \<and> patchfile_destroy writable_io keep_pixi 3 (closed_heap binary_mode, no_files)
       = Inr (no_objects, no_files(''Patch.ASM'' \<mapsto> patch_text))
   \<and> \<not> keep_of initial_keep pixi
   \<and> patchfile_destroy writable_io initial_keep 3
         (closed_heap binary_mode, no_files(''Patch.ASM'' \<mapsto> [1, 2, 3]))
       = Inr (no_objects, no_files)
   \<and> patchfile_destroy writable_io initial_keep 3 (closed_heap binary_mode, no_files)
       = Inr (no_objects, no_files)"
proof -
  let ?ops = "[Formatted (map of_char ''db ''), Raw (map of_char ''$42'' @ [0x0A, 0x00]) 4]"
  have ne: "''Patch.ASM'' \<noteq> []" by simp
  have s1: "appends 3 ?ops (patchfile_new 3 ''Patch.ASM'' binary_mode pixi no_objects)
      = Inr (staged_heap binary_mode)"
    by (rule stage_patch) (simp add: binary_mode_def)
  note spec = patchfile_destroy_spec [OF ne s1 close_patch]
  have k: "keep_of keep_pixi pixi" "\<not> keep_of initial_keep pixi"
    by (simp_all add: keep_of_def keep_pixi_def set_keep_def initial_keep_def)
  have o: "can_open writable_io ''Patch.ASM'' ''wb''" by (simp add: writable_io_def)
  have h: "closed_heap binary_mode 3 = Some pf \<Longrightarrow> m_data_pf pf = patch_text" for pf
    by (auto simp: closed_heap_def)
  have g: "(closed_heap binary_mode)(3 := None) = no_objects"
    by (simp add: closed_heap_def no_objects_def)
  have b: "ios_binary binary_mode" by (simp add: binary_mode_def)
  have d1: "patchfile_destroy writable_io keep_pixi 3 (closed_heap binary_mode, no_files)
       = Inr (no_objects, no_files(''Patch.ASM'' \<mapsto> patch_text))"
    using spec [of keep_pixi writable_io no_files] k o h b by (auto simp: g)
  have d2: "patchfile_destroy writable_io initial_keep 3
         (closed_heap binary_mode, no_files(''Patch.ASM'' \<mapsto> [1, 2, 3]))
       = Inr (no_objects, no_files)"
    using spec [of initial_keep writable_io "no_files(''Patch.ASM'' \<mapsto> [1, 2, 3])"] k
    by (auto simp: g no_files_def)
  have d3: "patchfile_destroy writable_io initial_keep 3 (closed_heap binary_mode, no_files)
       = Inr (no_objects, no_files)"
    using spec [of initial_keep writable_io no_files] k
    by (auto simp: g no_files_def)
  show ?thesis
    by (intro conjI; (rule ne s1 close_patch k o d1 d2 d3))
qed

text \<open>
  C10. Move-constructing the object at \<open>this\<close> from another object whose \<open>m_vfile\<close> is not
  null leaves a snapshot that is consistent with the destination: buffer and path point
  to the destination's own \<open>m_data\<close> and \<open>m_path\<close>, which hold what the source held, the
  length is the size of the destination's \<open>m_data\<close>, neither pointer refers to the
  moved-from object, and reading the snapshot yields the data. \<open>close\<close> on an object whose
  \<open>m_vfile\<close> is not null establishes the same consistency.
\<close>

theorem snapshot_self_consistent:
  "(h other = Some src \<and> m_vfile src \<noteq> None \<and> this \<noteq> other \<longrightarrow>
      (\<exists>h' dst vf. patchfile_move this other h = Inr h' \<and> snapshot_consistent h' this
         \<and> h' this = Some dst \<and> m_vfile dst = Some vf
         \<and> m_data_pf dst = m_data_pf src \<and> m_path dst = m_path src
         \<and> buffer vf \<noteq> data_of other \<and> path vf \<noteq> path_of other
         \<and> read_cstr h' (buffer vf) (length_mf vf) = Inr (m_data_pf src)))
   \<and> (h this = Some pf \<and> m_vfile pf \<noteq> None \<longrightarrow>
      (\<exists>h'. patchfile_close this h = Inr h' \<and> snapshot_consistent h' this))"
proof (intro conjI impI)
  assume a: "h other = Some src \<and> m_vfile src \<noteq> None \<and> this \<noteq> other"
  then obtain vf0 where v: "m_vfile src = Some vf0" by auto
  let ?vf = "vf0\<lparr>buffer := data_of this, length_mf := length (m_data_pf src),
                  path := path_of this\<rparr>"
  let ?dst = "\<lparr>m_fs_path = m_fs_path src, m_path = m_path src,
               m_data_stream = m_data_stream src, m_data_pf = m_data_pf src,
               m_vfile = Some ?vf,
               m_from_meimei = m_from_meimei src, m_binary = m_binary src\<rparr>"
  let ?h' = "h(other \<mapsto> src\<lparr>m_fs_path := [], m_path := [],
                               m_data_stream := (m_data_stream src)\<lparr>str := []\<rparr>,
                               m_data_pf := [], m_vfile := None\<rparr>,
               this \<mapsto> ?dst)"
  have m: "patchfile_move this other h = Inr ?h'"
    using a v by (simp add: patchfile_move_def Let_def)
  have c: "snapshot_consistent ?h' this"
    by (simp add: snapshot_consistent_def)
  have r: "read_cstr ?h' (buffer ?vf) (length_mf ?vf) = Inr (m_data_pf src)"
    by (simp add: read_cstr_def)
  have d: "buffer ?vf \<noteq> data_of other" "path ?vf \<noteq> path_of other"
    using a by simp_all
  show "\<exists>h' dst vf. patchfile_move this other h = Inr h' \<and> snapshot_consistent h' this
         \<and> h' this = Some dst \<and> m_vfile dst = Some vf
         \<and> m_data_pf dst = m_data_pf src \<and> m_path dst = m_path src
         \<and> buffer vf \<noteq> data_of other \<and> path vf \<noteq> path_of other
         \<and> read_cstr h' (buffer vf) (length_mf vf) = Inr (m_data_pf src)"
    using m c r d by (intro exI [of _ ?h'] exI [of _ ?dst] exI [of _ ?vf]) simp
next
  assume a: "h this = Some pf \<and> m_vfile pf \<noteq> None"
  then obtain vf0 where v: "m_vfile pf = Some vf0" by auto
  let ?pf = "pf\<lparr>m_data_pf := str (m_data_stream pf)\<rparr>"
  let ?h' = "h(this \<mapsto> ?pf\<lparr>m_vfile :=
               Some (vf0\<lparr>buffer := data_of this, length_mf := length (m_data_pf ?pf),
                         path := path_of this\<rparr>)\<rparr>)"
  have "patchfile_close this h = Inr ?h'"
    using a v by (simp add: patchfile_close_def Let_def)
  moreover have "snapshot_consistent ?h' this"
    by (simp add: snapshot_consistent_def)
  ultimately show "\<exists>h'. patchfile_close this h = Inr h' \<and> snapshot_consistent h' this"
    by blast
qed

lemma move_patch: "patchfile_move 4 3 (closed_heap binary_mode) = Inr moved_heap"
  by (simp add: patchfile_move_def Let_def closed_heap_def moved_heap_def binary_mode_def
      fun_upd_twist)

theorem snapshot_self_consistent_witness:
  "patchfile_move 4 3 (closed_heap binary_mode) = Inr moved_heap
   \<and> snapshot_consistent moved_heap 4
   \<and> read_cstr moved_heap (data_of 4) (length patch_text) = Inr patch_text
   \<and> patchfile_close 3 (staged_heap binary_mode) = Inr (closed_heap binary_mode)
   \<and> snapshot_consistent (closed_heap binary_mode) 3"
proof -
  have s: "closed_heap binary_mode 3 = Some
       \<lparr>m_fs_path = ''Patch.ASM'', m_path = ''patch.asm'',
        m_data_stream = \<lparr>mode = binary_mode, str = patch_text\<rparr>, m_data_pf = patch_text,
        m_vfile = Some \<lparr>path = path_of 3, buffer = data_of 3, length_mf = length patch_text\<rparr>,
        m_from_meimei = False, m_binary = ios_binary binary_mode\<rparr>"
    by (simp add: closed_heap_def)
  have t: "staged_heap binary_mode 3 = Some
       \<lparr>m_fs_path = ''Patch.ASM'', m_path = ''patch.asm'',
        m_data_stream = \<lparr>mode = binary_mode, str = patch_text\<rparr>, m_data_pf = [],
        m_vfile = Some new_memoryfile,
        m_from_meimei = False, m_binary = ios_binary binary_mode\<rparr>"
    by (simp add: staged_heap_def)
  let ?src = "\<lparr>m_fs_path = ''Patch.ASM'', m_path = ''patch.asm'',
        m_data_stream = \<lparr>mode = binary_mode, str = patch_text\<rparr>, m_data_pf = patch_text,
        m_vfile = Some \<lparr>path = path_of 3, buffer = data_of 3, length_mf = length patch_text\<rparr>,
        m_from_meimei = False, m_binary = ios_binary binary_mode\<rparr>"
  let ?stg = "\<lparr>m_fs_path = ''Patch.ASM'', m_path = ''patch.asm'',
        m_data_stream = \<lparr>mode = binary_mode, str = patch_text\<rparr>, m_data_pf = [],
        m_vfile = Some new_memoryfile,
        m_from_meimei = False, m_binary = ios_binary binary_mode\<rparr>"
  have "closed_heap binary_mode 3 = Some ?src \<and> m_vfile ?src \<noteq> None \<and> (4::obj) \<noteq> 3"
    using s by simp
  with snapshot_self_consistent
    [where h = "closed_heap binary_mode" and other = 3 and this = 4 and src = ?src]
  obtain h' dst vf where
    mv: "patchfile_move 4 3 (closed_heap binary_mode) = Inr h'"
      "snapshot_consistent h' 4" "h' 4 = Some dst" "m_vfile dst = Some vf"
      "m_data_pf dst = m_data_pf ?src"
      "read_cstr h' (buffer vf) (length_mf vf) = Inr (m_data_pf ?src)"
    by blast
  from mv(1) have h': "h' = moved_heap" by (simp add: move_patch)
  from mv(2,3,4,5) have "buffer vf = data_of 4" "length_mf vf = length patch_text"
    by (simp_all add: snapshot_consistent_def)
  with mv(2,6) have "snapshot_consistent moved_heap 4
      \<and> read_cstr moved_heap (data_of 4) (length patch_text) = Inr patch_text"
    by (simp add: h')
  moreover have "staged_heap binary_mode 3 = Some ?stg \<and> m_vfile ?stg \<noteq> None"
    using t by simp
  with snapshot_self_consistent
    [where h = "staged_heap binary_mode" and this = 3 and pf = ?stg]
  have "snapshot_consistent (closed_heap binary_mode) 3"
    by (auto simp: close_patch)
  ultimately show ?thesis by (simp add: move_patch close_patch)
qed

section \<open>Sprite tables\<close>

text \<open>What the loop of \<open>is_empty_table\<close> computes: no sprite of the span has an empty table.\<close>

lemma is_empty_table_code:
  "is_empty_table rtl sprites \<longleftrightarrow> (\<forall>s \<in> set sprites. \<not> has_empty_table rtl s)"
  by (induction sprites) auto

text \<open>
  C3. The claim: \<open>is_empty_table\<close> returns true if and only if every sprite of the span
  has an empty table. The loop tests \<open>sprite.has_empty_table()\<close> without negation and
  returns false at the first sprite that has an empty table: for the span holding one
  sprite fresh from \<open>clear()\<close>, whose table is empty, the result is false.
\<close>

theorem is_empty_table_of_cleared_sprite:
  "has_empty_table rtl (clear rtl s) \<and> is_empty_table rtl [clear rtl s] = False"
  by (simp add: has_empty_table_def is_empty_def clear_def)

text \<open>
  C9. After \<open>clear()\<close> a sprite has an empty table, and a cleared sprite whose \<open>init\<close> or
  \<open>main\<close> table pointer is then set to a value other than the sentinel \<open>DEFAULT_PTR\<close> does
  not have an empty table.
\<close>

theorem clear_has_empty_table:
  "has_empty_table rtl (clear rtl s)
   \<and> (\<forall>q1 q2. q1 \<noteq> DEFAULT_PTR rtl \<or> q2 \<noteq> DEFAULT_PTR rtl \<longrightarrow>
        \<not> has_empty_table rtl
            ((clear rtl s)\<lparr>table := (table (clear rtl s))\<lparr>init := q1, main := q2\<rparr>\<rparr>))"
  by (auto simp: has_empty_table_def is_empty_def clear_def)

theorem clear_has_empty_table_witness:
  "has_empty_table rtl_8021 (clear rtl_8021 some_sprite)
   \<and> pointer_of_int 0x128000 \<noteq> DEFAULT_PTR rtl_8021
   \<and> \<not> has_empty_table rtl_8021
           ((clear rtl_8021 some_sprite)\<lparr>table := (table (clear rtl_8021 some_sprite))
              \<lparr>init := pointer_of_int 0x128000, main := DEFAULT_PTR rtl_8021\<rparr>\<rparr>)
   \<and> \<not> has_empty_table rtl_8021
           ((clear rtl_8021 some_sprite)\<lparr>table := (table (clear rtl_8021 some_sprite))
              \<lparr>init := DEFAULT_PTR rtl_8021, main := pointer_of_int 0x128000\<rparr>\<rparr>)"
proof -
  have ne: "pointer_of_int 0x128000 \<noteq> DEFAULT_PTR rtl_8021"
    by (simp add: pointer_of_int_def DEFAULT_PTR_def rtl_8021_def)
  from clear_has_empty_table [of rtl_8021 some_sprite] ne show ?thesis by blast
qed

end
